theory Spec2Isabelle
  imports Main
begin

section \<open>Cards, the deck and the ranking table\<close>

text \<open>
  A card is the object \<^verbatim>\<open>{ suit, value }\<close> of the source: the suit is a string and the
  value a number, so that cards outside the deck (an unknown suit, the values 8 and 9)
  are values of the type as they are in the program.
\<close>

record card =
  suit :: string
  value' :: int

definition SUITS :: "string list" where
  "SUITS = [''espadas'', ''bastos'', ''oros'', ''copas'']"

definition CARD_VALUES :: "int list" where
  "CARD_VALUES = [1, 2, 3, 4, 5, 6, 7, 10, 11, 12]"

definition CARD_RANKING :: "card list" where
  "CARD_RANKING = [
    \<lparr>suit = ''espadas'', value' = 1\<rparr>,
    \<lparr>suit = ''bastos'', value' = 1\<rparr>,
    \<lparr>suit = ''espadas'', value' = 7\<rparr>,
    \<lparr>suit = ''oros'', value' = 7\<rparr>,
    \<lparr>suit = ''espadas'', value' = 3\<rparr>, \<lparr>suit = ''bastos'', value' = 3\<rparr>,
    \<lparr>suit = ''oros'', value' = 3\<rparr>, \<lparr>suit = ''copas'', value' = 3\<rparr>,
    \<lparr>suit = ''espadas'', value' = 2\<rparr>, \<lparr>suit = ''bastos'', value' = 2\<rparr>,
    \<lparr>suit = ''oros'', value' = 2\<rparr>, \<lparr>suit = ''copas'', value' = 2\<rparr>,
    \<lparr>suit = ''oros'', value' = 1\<rparr>, \<lparr>suit = ''copas'', value' = 1\<rparr>,
    \<lparr>suit = ''espadas'', value' = 12\<rparr>, \<lparr>suit = ''bastos'', value' = 12\<rparr>,
    \<lparr>suit = ''oros'', value' = 12\<rparr>, \<lparr>suit = ''copas'', value' = 12\<rparr>,
    \<lparr>suit = ''espadas'', value' = 11\<rparr>, \<lparr>suit = ''bastos'', value' = 11\<rparr>,
    \<lparr>suit = ''oros'', value' = 11\<rparr>, \<lparr>suit = ''copas'', value' = 11\<rparr>,
    \<lparr>suit = ''espadas'', value' = 10\<rparr>, \<lparr>suit = ''bastos'', value' = 10\<rparr>,
    \<lparr>suit = ''oros'', value' = 10\<rparr>, \<lparr>suit = ''copas'', value' = 10\<rparr>,
    \<lparr>suit = ''copas'', value' = 7\<rparr>, \<lparr>suit = ''bastos'', value' = 7\<rparr>,
    \<lparr>suit = ''espadas'', value' = 6\<rparr>, \<lparr>suit = ''bastos'', value' = 6\<rparr>,
    \<lparr>suit = ''oros'', value' = 6\<rparr>, \<lparr>suit = ''copas'', value' = 6\<rparr>,
    \<lparr>suit = ''espadas'', value' = 5\<rparr>, \<lparr>suit = ''bastos'', value' = 5\<rparr>,
    \<lparr>suit = ''oros'', value' = 5\<rparr>, \<lparr>suit = ''copas'', value' = 5\<rparr>,
    \<lparr>suit = ''espadas'', value' = 4\<rparr>, \<lparr>suit = ''bastos'', value' = 4\<rparr>,
    \<lparr>suit = ''oros'', value' = 4\<rparr>, \<lparr>suit = ''copas'', value' = 4\<rparr>
  ]"

text \<open>\<^verbatim>\<open>createDeck\<close>: suit-major, value-minor, one card per pair.\<close>

definition createDeck :: "card list" where
  "createDeck =
     concat (map (\<lambda>s. map (\<lambda>v. \<lparr>suit = s, value' = v\<rparr>) CARD_VALUES) SUITS)"

text \<open>
  \<^verbatim>\<open>Array.prototype.findIndex\<close>: the index of the first element that satisfies the
  predicate, and \<open>-1\<close> when there is none.
\<close>

fun findIndexFrom :: "('a \<Rightarrow> bool) \<Rightarrow> 'a list \<Rightarrow> int \<Rightarrow> int" where
  "findIndexFrom P [] i = - 1"
| "findIndexFrom P (x # xs) i = (if P x then i else findIndexFrom P xs (i + 1))"

definition findIndex :: "('a \<Rightarrow> bool) \<Rightarrow> 'a list \<Rightarrow> int" where
  "findIndex P xs = findIndexFrom P xs 0"

definition getCardRank :: "card \<Rightarrow> int" where
  "getCardRank c =
     findIndex (\<lambda>rankedCard. suit rankedCard = suit c \<and> value' rankedCard = value' c)
       CARD_RANKING"

text \<open>\<^verbatim>\<open>compareCards\<close>: \<open>1\<close> when the first card wins, \<open>-1\<close> when the second wins, \<open>0\<close> on a tie.\<close>

definition compareCards :: "card \<Rightarrow> card \<Rightarrow> int" where
  "compareCards card1 card2 =
     (let rank1 = getCardRank card1;
          rank2 = getCardRank card2
      in if rank1 < rank2 then 1
         else if rank1 > rank2 then - 1
         else 0)"

section \<open>The component state\<close>

text \<open>
  The game is one component; its state is a tuple of variables, each changed through its
  setter. A handler is modelled as a function of the values of the state variables its
  closure holds when it is called: every read of a variable in the handler is a read of
  that value (the variables are constants of the closure, which no setter changes), a
  setter called with a value overwrites the variable, and a setter called with an updater
  function (\<^verbatim>\<open>prev => prev + n\<close>) applies it to the value the variable has at that
  point. The timers between the steps of a handler only pace the display, and the steps
  are composed in their order. Which render's closure a timer calls is a matter of the
  scheduling of the display and is not modelled: a theorem about a handler holds for every
  state the handler is applied to. The variables that only drive the display
  (\<^verbatim>\<open>showRankings\<close>, \<^verbatim>\<open>showAdvice\<close>, \<^verbatim>\<open>cardExplanation\<close>) are left out.
\<close>

record 'a sides =
  player :: 'a
  opponent :: 'a

datatype roundWinner = Player | Opponent | Tie

record roundRecord =
  playerCard :: card
  opponentCard :: card
  winner :: roundWinner

datatype phase = Dealing | Playing | RoundEnd | GameEnd

text \<open>The message shown to the player: one constructor per message text of the source,
  with the values the text interpolates.\<close>

datatype msg =
    MsgWelcome
  | MsgNewHand
  | MsgYouPlayed card
  | MsgOpponentPlayed card
  | MsgRoundWon
  | MsgRoundLost
  | MsgRoundTied
  | MsgHandWon int
  | MsgHandLost int
  | MsgTiedHandWon int
  | MsgTiedHandLost int
  | MsgCompletelyTied
  | MsgGameWon
  | MsgGameLost
  | MsgNextHand
  | MsgCalled string int
  | MsgTruco
  | MsgEnvidoCalled int int
  | MsgEnvidoWon int int
  | MsgEnvidoLost int int
  | MsgEnvidoTied int

record game =
  deck :: "card list"
  playerHand :: "card list"
  opponentHand :: "card list"
  playerScore :: int
  opponentScore :: int
  roundCards :: "card option sides"
  rounds :: "roundRecord list"
  currentRound :: int
  gameState :: phase
  truco :: bool
  trucoValue :: int
  message :: msg
  envido :: bool
  envidoPoints :: "int sides"
  roundWins :: "int sides"

text \<open>A handler that dereferences \<^verbatim>\<open>null\<close> or \<^verbatim>\<open>undefined\<close> throws a
  \<^verbatim>\<open>TypeError\<close>; the outcome keeps the state reached when it was thrown.\<close>

datatype outcome = Done game | TypeError game

section \<open>Envido points\<close>

text \<open>
  \<^verbatim>\<open>calculateEnvidoPoints\<close> groups the values of a hand by suit in an object whose
  keys are kept in insertion order; a value above 7 is entered as 0. The source repeats
  the same computation for the player and for the opponent; \<open>envidoHighest\<close> is that
  computation for one hand.
\<close>

fun pushValue :: "string \<Rightarrow> int \<Rightarrow> (string \<times> int list) list \<Rightarrow> (string \<times> int list) list" where
  "pushValue k v [] = [(k, [v])]"
| "pushValue k v ((k', vs) # rest) =
     (if k' = k then (k', vs @ [v]) # rest else (k', vs) # pushValue k v rest)"

definition groupBySuit :: "card list \<Rightarrow> (string \<times> int list) list" where
  "groupBySuit cards =
     foldl (\<lambda>suits c. pushValue (suit c) (if value' c \<le> 7 then value' c else 0) suits) [] cards"

text \<open>\<^verbatim>\<open>sort((a, b) => b - a)\<close>: descending.\<close>

definition sortDescending :: "int list \<Rightarrow> int list" where
  "sortDescending vs = rev (sort vs)"

definition pairHighest :: "(string \<times> int list) list \<Rightarrow> int" where
  "pairHighest suits =
     foldl (\<lambda>highest (k, vs).
              if length vs \<ge> 2
              then (let sortedValues = sortDescending vs;
                        points = 20 + sortedValues ! 0 + sortedValues ! 1
                    in max highest points)
              else highest) 0 suits"

definition envidoHighest :: "card list \<Rightarrow> int" where
  "envidoHighest cards =
     (let highest = pairHighest (groupBySuit cards)
      in if highest = 0
         then foldl (\<lambda>h c. if value' c \<le> 7 then max h (value' c) else h) highest cards
         else highest)"

definition calculateEnvidoPoints :: "game \<Rightarrow> card list \<Rightarrow> card list \<Rightarrow> game" where
  "calculateEnvidoPoints s playerCards opponentCards =
     s\<lparr>envidoPoints :=
         \<lparr>player = envidoHighest playerCards, opponent = envidoHighest opponentCards\<rparr>\<rparr>"

section \<open>The handlers\<close>

text \<open>\<^verbatim>\<open>startNewHand\<close>; the shuffled deck is a parameter.\<close>

definition startNewHand :: "game \<Rightarrow> card list \<Rightarrow> game" where
  "startNewHand s newDeck =
     (let newPlayerHand = take 3 newDeck;
          newOpponentHand = take 3 (drop 3 newDeck)
      in calculateEnvidoPoints
           (s\<lparr>deck := drop 6 newDeck,
              playerHand := newPlayerHand,
              opponentHand := newOpponentHand,
              rounds := [],
              currentRound := 1,
              gameState := Playing,
              truco := False,
              trucoValue := 1,
              envido := False,
              roundCards := \<lparr>player = None, opponent = None\<rparr>,
              roundWins := \<lparr>player = 0, opponent = 0\<rparr>,
              message := MsgNewHand\<rparr>)
           newPlayerHand newOpponentHand)"

text \<open>\<^verbatim>\<open>playCard\<close>, up to the point where it schedules the opponent's play.\<close>

definition playCard :: "game \<Rightarrow> card \<Rightarrow> game" where
  "playCard s c =
     (if gameState s \<noteq> Playing then s
      else
        let newPlayerHand =
              filter (\<lambda>c'. \<not> (suit c' = suit c \<and> value' c' = value' c)) (playerHand s)
        in s\<lparr>playerHand := newPlayerHand,
             roundCards := (roundCards s)\<lparr>player := Some c\<rparr>,
             message := MsgYouPlayed c\<rparr>)"

text \<open>
  The opponent's choice in \<^verbatim>\<open>playOpponentCard\<close>: the hand sorted by rank index and
  reversed, the first card of it that beats the player's card, and the last card of it
  when none does (\<open>None\<close> is \<^verbatim>\<open>undefined\<close>, for an empty hand).
\<close>

definition sortedHand :: "card list \<Rightarrow> card list" where
  "sortedHand hand = rev (sort_key getCardRank hand)"

definition cardToPlay :: "card list \<Rightarrow> card \<Rightarrow> card option" where
  "cardToPlay hand plCard =
     (case find (\<lambda>c. compareCards c plCard > 0) (sortedHand hand) of
        Some c \<Rightarrow> Some c
      | None \<Rightarrow> (if sortedHand hand = [] then None else Some (last (sortedHand hand))))"

text \<open>\<^verbatim>\<open>playOpponentCard\<close>, up to the point where it schedules \<^verbatim>\<open>evaluateRound\<close>
  with the chosen card (the card in the opponent's slot of the state returned).\<close>

definition playOpponentCard :: "game \<Rightarrow> outcome" where
  "playOpponentCard s =
     (case player (roundCards s) of
        None \<Rightarrow>
          (if opponentHand s = []
           then TypeError (s\<lparr>roundCards := (roundCards s)\<lparr>opponent := None\<rparr>\<rparr>)
           else TypeError s)
      | Some plCard \<Rightarrow>
          (case cardToPlay (opponentHand s) plCard of
             None \<Rightarrow> TypeError (s\<lparr>roundCards := (roundCards s)\<lparr>opponent := None\<rparr>\<rparr>)
           | Some c \<Rightarrow>
               Done (s\<lparr>opponentHand :=
                         filter (\<lambda>c'. \<not> (suit c' = suit c \<and> value' c' = value' c))
                           (opponentHand s),
                       roundCards := (roundCards s)\<lparr>opponent := Some c\<rparr>,
                       message := MsgOpponentPlayed c\<rparr>)))"

text \<open>
  \<^verbatim>\<open>evaluateRound\<close>. \<open>handIsOver\<close> is its test that the hand is over, \<open>awardHand\<close>
  the branch that determines the hand's winner, \<open>checkGameEnd\<close> the last step. In each,
  \<open>s\<close> is the state the handler was called in and \<open>t\<close> the state its earlier steps have
  produced.
\<close>

definition handIsOver :: "int sides \<Rightarrow> game \<Rightarrow> bool" where
  "handIsOver newRoundWins s \<longleftrightarrow>
     player newRoundWins \<ge> 2 \<or> opponent newRoundWins \<ge> 2 \<or>
     (length (playerHand s) = 0 \<and> length (opponentHand s) = 0) \<or>
     currentRound s \<ge> 3"

definition awardHand :: "int sides \<Rightarrow> game \<Rightarrow> game \<Rightarrow> game" where
  "awardHand newRoundWins s t =
     (if player newRoundWins > opponent newRoundWins
      then t\<lparr>playerScore := playerScore t + trucoValue s, message := MsgHandWon (trucoValue s)\<rparr>
      else if player newRoundWins < opponent newRoundWins
      then t\<lparr>opponentScore := opponentScore t + trucoValue s, message := MsgHandLost (trucoValue s)\<rparr>
      else
        (case find (\<lambda>r. winner r \<noteq> Tie) (rounds s) of
           Some firstWin \<Rightarrow>
             (if winner firstWin = Player
              then t\<lparr>playerScore := playerScore t + trucoValue s,
                     message := MsgTiedHandWon (trucoValue s)\<rparr>
              else t\<lparr>opponentScore := opponentScore t + trucoValue s,
                     message := MsgTiedHandLost (trucoValue s)\<rparr>)
         | None \<Rightarrow> t\<lparr>message := MsgCompletelyTied\<rparr>))"

definition checkGameEnd :: "game \<Rightarrow> game \<Rightarrow> game" where
  "checkGameEnd s t =
     (if playerScore s \<ge> 15 \<or> opponentScore s \<ge> 15
      then t\<lparr>gameState := GameEnd,
             message := (if playerScore s \<ge> 15 then MsgGameWon else MsgGameLost)\<rparr>
      else t\<lparr>message := MsgNextHand\<rparr>)"

definition evaluateRound :: "game \<Rightarrow> card \<Rightarrow> outcome" where
  "evaluateRound s oppCard =
     (case player (roundCards s) of
        None \<Rightarrow> TypeError s
      | Some plCard \<Rightarrow>
          (let result = compareCards plCard oppCard;
               newRoundWins =
                 (if result > 0 then (roundWins s)\<lparr>player := player (roundWins s) + 1\<rparr>
                  else if result < 0 then (roundWins s)\<lparr>opponent := opponent (roundWins s) + 1\<rparr>
                  else roundWins s);
               theWinner = (if result > 0 then Player else if result < 0 then Opponent else Tie);
               s1 = s\<lparr>message :=
                        (if result > 0 then MsgRoundWon
                         else if result < 0 then MsgRoundLost else MsgRoundTied),
                      rounds := rounds s @
                        [\<lparr>playerCard = plCard, opponentCard = oppCard, winner = theWinner\<rparr>],
                      roundWins := newRoundWins\<rparr>;
               s2 = s1\<lparr>roundCards := \<lparr>player = None, opponent = None\<rparr>\<rparr>
           in Done
                (if handIsOver newRoundWins s
                 then checkGameEnd s ((awardHand newRoundWins s s2)\<lparr>gameState := RoundEnd\<rparr>)
                 else s2\<lparr>currentRound := currentRound s2 + 1, gameState := Playing\<rparr>)))"

text \<open>\<^verbatim>\<open>callTruco\<close>.\<close>

definition callTruco :: "game \<Rightarrow> game" where
  "callTruco s =
     (if truco s
      then (let newValue = trucoValue s + 1
            in if newValue > 4 then s
               else s\<lparr>trucoValue := newValue,
                      message :=
                        MsgCalled
                          (if newValue = 2 then ''Retruco''
                           else if newValue = 3 then ''Vale Tres''
                           else if newValue = 4 then ''Vale Cuatro'' else [])
                          newValue\<rparr>)
      else s\<lparr>truco := True, trucoValue := 2, message := MsgTruco\<rparr>)"

text \<open>\<^verbatim>\<open>callEnvido\<close>, with the resolution it schedules.\<close>

definition callEnvido :: "game \<Rightarrow> game" where
  "callEnvido s =
     (if envido s then s
      else
        (let playerPoints = player (envidoPoints s);
             opponentPoints = opponent (envidoPoints s);
             s1 = s\<lparr>envido := True, message := MsgEnvidoCalled playerPoints opponentPoints\<rparr>
         in if playerPoints > opponentPoints
            then s1\<lparr>playerScore := playerScore s1 + 2,
                    message := MsgEnvidoWon playerPoints opponentPoints\<rparr>
            else if playerPoints < opponentPoints
            then s1\<lparr>opponentScore := opponentScore s1 + 2,
                    message := MsgEnvidoLost playerPoints opponentPoints\<rparr>
            else s1\<lparr>opponentScore := opponentScore s1 + 2,
                    message := MsgEnvidoTied playerPoints\<rparr>))"

text \<open>
  The Envido button: it is rendered while the state is \<^verbatim>\<open>playing\<close> and the player's
  slot is empty, and it is disabled once Envido has been called or after the first round.
  A click on it calls \<^verbatim>\<open>callEnvido\<close> when it is rendered and enabled.
\<close>

definition envidoButtonEnabled :: "game \<Rightarrow> bool" where
  "envidoButtonEnabled s \<longleftrightarrow>
     gameState s = Playing \<and> player (roundCards s) = None \<and> \<not> (envido s \<or> currentRound s > 1)"

definition clickEnvido :: "game \<Rightarrow> game" where
  "clickEnvido s = (if envidoButtonEnabled s then callEnvido s else s)"

text \<open>
  The cards shown as the player's hand are the cards of \<^verbatim>\<open>playerHand\<close>. A card is
  playable while the state is \<^verbatim>\<open>playing\<close> and the player's slot is empty; a click on
  a playable card calls \<^verbatim>\<open>playCard\<close>, and a click on a card that is not playable
  only shows its explanation, which changes none of the variables above.
\<close>

definition cardPlayable :: "game \<Rightarrow> bool" where
  "cardPlayable s \<longleftrightarrow> gameState s = Playing \<and> player (roundCards s) = None"

definition clickCard :: "game \<Rightarrow> card \<Rightarrow> game" where
  "clickCard s c = (if c \<in> set (playerHand s) \<and> cardPlayable s then playCard s c else s)"

text \<open>
  What can happen within a hand, one action after another: a click on a card, the
  opponent's play, the evaluation of the trick with the opponent's card, a call of Truco
  and a click on the Envido button. An exception ends the handler and leaves the state as
  it was when it was thrown. \<open>envidoSuccesses\<close> counts, along a sequence of actions, the
  clicks on the Envido button that found it enabled.
\<close>

datatype handAction =
    ClickCard card
  | OpponentPlays
  | EvaluateRound card
  | CallTruco
  | ClickEnvido

fun stepHand :: "handAction \<Rightarrow> game \<Rightarrow> game" where
  "stepHand (ClickCard c) s = clickCard s c"
| "stepHand OpponentPlays s = (case playOpponentCard s of Done t \<Rightarrow> t | TypeError t \<Rightarrow> t)"
| "stepHand (EvaluateRound oc) s = (case evaluateRound s oc of Done t \<Rightarrow> t | TypeError t \<Rightarrow> t)"
| "stepHand CallTruco s = callTruco s"
| "stepHand ClickEnvido s = clickEnvido s"

fun envidoSuccesses :: "handAction list \<Rightarrow> game \<Rightarrow> nat" where
  "envidoSuccesses [] s = 0"
| "envidoSuccesses (a # acts) s =
     (if a = ClickEnvido \<and> envidoButtonEnabled s then 1 else 0) +
     envidoSuccesses acts (stepHand a s)"

section \<open>The ranking order as the specification words it\<close>

text \<open>
  The order of strength as the specification lists it, strongest first; \<open>fourOf v\<close> is
  "all four cards of value \<open>v\<close>" in the suit order espadas, bastos, oros, copas.
\<close>

definition fourOf :: "int \<Rightarrow> card list" where
  "fourOf v = map (\<lambda>s. \<lparr>suit = s, value' = v\<rparr>) SUITS"

definition rankingOrder :: "card list" where
  "rankingOrder =
     [\<lparr>suit = ''espadas'', value' = 1\<rparr>, \<lparr>suit = ''bastos'', value' = 1\<rparr>,
      \<lparr>suit = ''espadas'', value' = 7\<rparr>, \<lparr>suit = ''oros'', value' = 7\<rparr>]
     @ fourOf 3 @ fourOf 2
     @ [\<lparr>suit = ''oros'', value' = 1\<rparr>, \<lparr>suit = ''copas'', value' = 1\<rparr>]
     @ fourOf 12 @ fourOf 11 @ fourOf 10
     @ [\<lparr>suit = ''copas'', value' = 7\<rparr>, \<lparr>suit = ''bastos'', value' = 7\<rparr>]
     @ fourOf 6 @ fourOf 5 @ fourOf 4"

section \<open>The Envido score as the specification words it\<close>

text \<open>
  A card of value at most 7 counts its value and a card of value 10, 11 or 12 counts 0.
  A suit that holds at least two cards of the hand scores 20 plus its highest and its
  second-highest counted values; the score of the hand is the maximum over such suits,
  and the highest single counted value when there is no such suit.
\<close>

definition substituted :: "card \<Rightarrow> int" where
  "substituted c = (if value' c \<le> 7 then value' c else 0)"

definition suitValues :: "string \<Rightarrow> card list \<Rightarrow> int list" where
  "suitValues s hand = map substituted (filter (\<lambda>c. suit c = s) hand)"

definition highestTwo :: "int list \<Rightarrow> int" where
  "highestTwo vs = (let h = Max (set vs) in h + Max (set (remove1 h vs)))"

definition envidoSpec :: "card list \<Rightarrow> int" where
  "envidoSpec hand =
     (let pairSuits = filter (\<lambda>s. length (suitValues s hand) \<ge> 2) SUITS
      in if pairSuits = [] then Max (set (map substituted hand))
         else Max (set (map (\<lambda>s. 20 + highestTwo (suitValues s hand)) pairSuits)))"

section \<open>The winner of a hand as the specification words it\<close>

text \<open>
  The outcomes of the tricks of a hand, in the order they were recorded, decide its
  winner: the side with more tricks won; when both have won equally many, the winner of
  the first trick that was not tied; \<open>Tie\<close> (nobody) when every trick was tied.
\<close>

definition handWinnerSpec :: "roundWinner list \<Rightarrow> roundWinner" where
  "handWinnerSpec ws =
     (if count_list ws Player > count_list ws Opponent then Player
      else if count_list ws Player < count_list ws Opponent then Opponent
      else (case find (\<lambda>w. w \<noteq> Tie) ws of Some w \<Rightarrow> w | None \<Rightarrow> Tie))"

text \<open>
  Two facts that hold of the state throughout a hand: the counters of tricks won are the
  numbers of tricks recorded for each side, and the number of the current trick is one
  more than the number of tricks recorded.
\<close>

definition winsConsistent :: "game \<Rightarrow> bool" where
  "winsConsistent s \<longleftrightarrow>
     player (roundWins s) = int (count_list (map winner (rounds s)) Player) \<and>
     opponent (roundWins s) = int (count_list (map winner (rounds s)) Opponent)"

definition roundCounted :: "game \<Rightarrow> bool" where
  "roundCounted s \<longleftrightarrow> currentRound s = int (length (rounds s)) + 1"

text \<open>The state the component is created with (the initial values of its variables).\<close>

definition initialGame :: game where
  "initialGame =
     \<lparr>deck = [], playerHand = [], opponentHand = [],
      playerScore = 0, opponentScore = 0,
      roundCards = \<lparr>player = None, opponent = None\<rparr>,
      rounds = [], currentRound = 1, gameState = Dealing,
      truco = False, trucoValue = 1, message = MsgWelcome,
      envido = False, envidoPoints = \<lparr>player = 0, opponent = 0\<rparr>,
      roundWins = \<lparr>player = 0, opponent = 0\<rparr>\<rparr>"


section \<open>Rank lookup and comparison\<close>

lemma card_eq_iff: "(a::card) = b \<longleftrightarrow> suit a = suit b \<and> value' a = value' b"
  by (cases a, cases b) simp

lemma findIndexFrom_absent:
  "\<forall>x\<in>set xs. \<not> P x \<Longrightarrow> findIndexFrom P xs i = - 1"
  by (induction xs arbitrary: i) auto

lemma findIndexFrom_nth:
  "distinct xs \<Longrightarrow> n < length xs \<Longrightarrow> findIndexFrom (\<lambda>y. y = xs ! n) xs i = i + int n"
proof (induction xs arbitrary: n i)
  case Nil
  then show ?case by simp
next
  case (Cons x xs)
  show ?case
  proof (cases n)
    case 0
    then show ?thesis by simp
  next
    case (Suc m)
    with Cons.prems have m: "m < length xs" and d: "distinct xs" and nx: "xs ! m \<noteq> x"
      by auto
    from Cons.IH[OF d m] Suc nx show ?thesis by simp
  qed
qed

lemma getCardRank_eq: "getCardRank c = findIndex (\<lambda>r. r = c) CARD_RANKING"
  by (simp add: getCardRank_def card_eq_iff)

lemma distinct_CARD_RANKING: "distinct CARD_RANKING"
  by (simp add: CARD_RANKING_def)

lemma length_CARD_RANKING: "length CARD_RANKING = 40"
  by (simp add: CARD_RANKING_def)

lemma distinct_createDeck: "distinct createDeck"
  by (simp add: createDeck_def SUITS_def CARD_VALUES_def)

lemma length_createDeck: "length createDeck = 40"
  by (simp add: createDeck_def SUITS_def CARD_VALUES_def)

lemma createDeck_subset: "set createDeck \<subseteq> set CARD_RANKING"
  by (simp add: createDeck_def SUITS_def CARD_VALUES_def CARD_RANKING_def)

lemma set_CARD_RANKING: "set CARD_RANKING = set createDeck"
proof -
  have "card (set createDeck) = 40" "card (set CARD_RANKING) = 40"
    using distinct_card[OF distinct_createDeck] distinct_card[OF distinct_CARD_RANKING]
    by (simp_all add: length_CARD_RANKING length_createDeck)
  then show ?thesis
    using card_subset_eq[OF _ createDeck_subset] by simp
qed

lemma createDeck_iff:
  "c \<in> set createDeck \<longleftrightarrow> suit c \<in> set SUITS \<and> value' c \<in> set CARD_VALUES"
  by (cases c) (auto simp: createDeck_def)

lemma getCardRank_absent: "c \<notin> set createDeck \<Longrightarrow> getCardRank c = - 1"
  unfolding getCardRank_eq findIndex_def
  by (rule findIndexFrom_absent) (auto simp: set_CARD_RANKING)

lemma getCardRank_nth: "n < 40 \<Longrightarrow> getCardRank (CARD_RANKING ! n) = int n"
  unfolding getCardRank_eq findIndex_def
  using findIndexFrom_nth[OF distinct_CARD_RANKING, of n 0]
  by (simp add: length_CARD_RANKING)

lemma getCardRank_deck:
  assumes "c \<in> set createDeck"
  shows "0 \<le> getCardRank c \<and> getCardRank c < 40 \<and> CARD_RANKING ! nat (getCardRank c) = c"
proof -
  from assms obtain n where n: "n < 40" "CARD_RANKING ! n = c"
    unfolding set_CARD_RANKING[symmetric] in_set_conv_nth length_CARD_RANKING by blast
  from getCardRank_nth[OF n(1)] n show ?thesis by simp
qed

lemma getCardRank_inj:
  "a \<in> set createDeck \<Longrightarrow> b \<in> set createDeck \<Longrightarrow> getCardRank a = getCardRank b \<Longrightarrow> a = b"
  using getCardRank_deck[of a] getCardRank_deck[of b] by metis

lemma getCardRank_bij: "bij_betw getCardRank (set createDeck) {0..39}"
proof (rule bij_betwI')
  fix a b assume "a \<in> set createDeck" "b \<in> set createDeck"
  then show "(getCardRank a = getCardRank b) = (a = b)"
    using getCardRank_inj by blast
next
  fix a assume "a \<in> set createDeck"
  then show "getCardRank a \<in> {0..39}"
    using getCardRank_deck[of a] by simp
next
  fix i :: int assume "i \<in> {0..39}"
  then have n: "nat i < 40" and i: "int (nat i) = i" by auto
  have "CARD_RANKING ! nat i \<in> set createDeck"
    using n by (simp add: set_CARD_RANKING[symmetric] length_CARD_RANKING)
  with getCardRank_nth[OF n] i show "\<exists>c\<in>set createDeck. i = getCardRank c"
    by metis
qed

text \<open>
  Claim C1. The ranking table is the list the specification gives, in that order: 40
  entries, no entry twice, its entries the pairs of one of the four suits and one of the
  ten values, the same cards as the deck; and the rank lookup is a bijection from the
  cards of the deck onto the integers 0 to 39.
\<close>

theorem ranking_table:
  "CARD_RANKING = rankingOrder \<and>
   length CARD_RANKING = 40 \<and>
   distinct CARD_RANKING \<and>
   set CARD_RANKING = {c. suit c \<in> set SUITS \<and> value' c \<in> set CARD_VALUES} \<and>
   set createDeck = set CARD_RANKING \<and>
   bij_betw getCardRank (set createDeck) {0..39}"
proof -
  have "CARD_RANKING = rankingOrder"
    by (simp add: CARD_RANKING_def rankingOrder_def fourOf_def SUITS_def)
  moreover have "set CARD_RANKING = {c. suit c \<in> set SUITS \<and> value' c \<in> set CARD_VALUES}"
    using createDeck_iff by (auto simp: set_CARD_RANKING)
  ultimately show ?thesis
    using length_CARD_RANKING distinct_CARD_RANKING set_CARD_RANKING getCardRank_bij by simp
qed

text \<open>
  Claim C9. For cards \<open>a\<close> and \<open>b\<close> of the deck, comparing \<open>a\<close> with itself is a tie,
  and when \<open>a\<close> and \<open>b\<close> differ the comparison is antisymmetric and never a tie: the first
  card wins exactly when the second loses the reversed comparison, and the card with the
  lower rank index wins.
\<close>

theorem compareCards_antisym:
  assumes "a \<in> set createDeck" and "b \<in> set createDeck"
  shows "compareCards a a = 0 \<and>
         (a \<noteq> b \<longrightarrow>
            (compareCards a b = 1 \<longleftrightarrow> compareCards b a = - 1) \<and>
            (compareCards a b = 1 \<longleftrightarrow> getCardRank a < getCardRank b) \<and>
            (compareCards a b = - 1 \<longleftrightarrow> getCardRank b < getCardRank a) \<and>
            compareCards a b \<noteq> 0)"
  using getCardRank_inj[OF assms]
  by (auto simp: compareCards_def Let_def)

theorem compareCards_antisym_witness:
  "\<lparr>suit = ''espadas'', value' = 1\<rparr> \<in> set createDeck \<and>
   \<lparr>suit = ''bastos'', value' = 1\<rparr> \<in> set createDeck \<and>
   \<lparr>suit = ''espadas'', value' = 1\<rparr> \<noteq> \<lparr>suit = ''bastos'', value' = 1\<rparr> \<and>
   compareCards \<lparr>suit = ''espadas'', value' = 1\<rparr> \<lparr>suit = ''espadas'', value' = 1\<rparr> = 0 \<and>
   compareCards \<lparr>suit = ''espadas'', value' = 1\<rparr> \<lparr>suit = ''bastos'', value' = 1\<rparr> = 1 \<and>
   compareCards \<lparr>suit = ''bastos'', value' = 1\<rparr> \<lparr>suit = ''espadas'', value' = 1\<rparr> = - 1"
proof -
  let ?a = "\<lparr>suit = ''espadas'', value' = 1\<rparr>" and ?b = "\<lparr>suit = ''bastos'', value' = 1\<rparr>"
  have a: "?a \<in> set createDeck" and b: "?b \<in> set createDeck"
    by (simp_all add: createDeck_iff SUITS_def CARD_VALUES_def)
  have r: "getCardRank ?a < getCardRank ?b"
    by (simp add: getCardRank_def findIndex_def CARD_RANKING_def)
  have ne: "?a \<noteq> ?b" by simp
  from compareCards_antisym[OF a b] ne r a b show ?thesis by blast
qed

text \<open>
  Claim C10. A card outside the deck has rank \<open>-1\<close>, and the comparison then reports it
  the winner against every card of the deck, whichever side it stands on; the rank is
  within 0 to 39 exactly for the cards of the deck.
\<close>

theorem out_of_deck:
  "(c \<notin> set createDeck \<longrightarrow>
      getCardRank c = - 1 \<and>
      (\<forall>d\<in>set createDeck. compareCards c d = 1 \<and> compareCards d c = - 1)) \<and>
   (getCardRank c \<in> {0..39} \<longleftrightarrow> c \<in> set createDeck)"
proof -
  have "compareCards c d = 1 \<and> compareCards d c = - 1"
    if "c \<notin> set createDeck" "d \<in> set createDeck" for d
    using getCardRank_absent[OF that(1)] getCardRank_deck[OF that(2)]
    by (simp add: compareCards_def Let_def)
  moreover have "getCardRank c \<in> {0..39} \<longleftrightarrow> c \<in> set createDeck"
    using getCardRank_absent[of c] getCardRank_deck[of c]
    by (cases "c \<in> set createDeck") auto
  ultimately show ?thesis
    using getCardRank_absent by blast
qed

theorem out_of_deck_witness:
  "\<lparr>suit = ''espadas'', value' = 8\<rparr> \<notin> set createDeck \<and>
   \<lparr>suit = ''espadas'', value' = 1\<rparr> \<in> set createDeck \<and>
   getCardRank \<lparr>suit = ''espadas'', value' = 8\<rparr> = - 1 \<and>
   compareCards \<lparr>suit = ''espadas'', value' = 8\<rparr> \<lparr>suit = ''espadas'', value' = 1\<rparr> = 1 \<and>
   compareCards \<lparr>suit = ''espadas'', value' = 1\<rparr> \<lparr>suit = ''espadas'', value' = 8\<rparr> = - 1"
proof -
  let ?c = "\<lparr>suit = ''espadas'', value' = 8\<rparr>" and ?d = "\<lparr>suit = ''espadas'', value' = 1\<rparr>"
  have c: "?c \<notin> set createDeck" and d: "?d \<in> set createDeck"
    by (simp_all add: createDeck_iff SUITS_def CARD_VALUES_def)
  from out_of_deck[of ?c] c d show ?thesis by blast
qed

section \<open>Envido points of a hand\<close>

lemma sortDescending_pair:
  "sortDescending [x, y] ! 0 = max x y" "sortDescending [x, y] ! Suc 0 = min x y"
  by (simp_all add: sortDescending_def)

lemma sortDescending_triple:
  "sortDescending [x, y, z] ! 0 = max x (max y z)"
  "sortDescending [x, y, z] ! Suc 0 = x + y + z - max x (max y z) - min x (min y z)"
  by (simp_all add: sortDescending_def)

lemma highestTwo_pair: "highestTwo [x, y] = x + y"
  by (auto simp: highestTwo_def Let_def max_def)

lemma highestTwo_triple: "highestTwo [x, y, z] = x + y + z - min x (min y z)"
  by (auto simp: highestTwo_def Let_def max_def min_def)

lemma grp3:
  "groupBySuit [a, b, c] =
     pushValue (suit c) (substituted c)
       (pushValue (suit b) (substituted b) [(suit a, [substituted a])])"
  by (simp add: groupBySuit_def substituted_def)

lemma code_same:
  assumes "0 \<le> substituted a" "0 \<le> substituted b" "0 \<le> substituted c"
    and "suit a = suit b" "suit b = suit c"
  shows "pairHighest (groupBySuit [a, b, c]) =
     20 + (substituted a + substituted b + substituted c
           - min (substituted a) (min (substituted b) (substituted c)))"
  using assms unfolding grp3
  by (simp add: pairHighest_def Let_def sortDescending_triple)

lemma code_ab:
  assumes "0 \<le> substituted a" "0 \<le> substituted b"
    and "suit a = suit b" "suit b \<noteq> suit c"
  shows "pairHighest (groupBySuit [a, b, c]) = 20 + substituted a + substituted b"
  using assms unfolding grp3
  by (simp add: pairHighest_def Let_def sortDescending_pair)

lemma code_ac:
  assumes "0 \<le> substituted a" "0 \<le> substituted c"
    and "suit a = suit c" "suit a \<noteq> suit b"
  shows "pairHighest (groupBySuit [a, b, c]) = 20 + substituted a + substituted c"
  using assms unfolding grp3
  by (simp add: pairHighest_def Let_def sortDescending_pair)

lemma code_bc:
  assumes "0 \<le> substituted b" "0 \<le> substituted c"
    and "suit b = suit c" "suit a \<noteq> suit b"
  shows "pairHighest (groupBySuit [a, b, c]) = 20 + substituted b + substituted c"
  using assms unfolding grp3
  by (simp add: pairHighest_def Let_def sortDescending_pair)

lemma code_none:
  assumes "suit a \<noteq> suit b" "suit a \<noteq> suit c" "suit b \<noteq> suit c"
  shows "pairHighest (groupBySuit [a, b, c]) = 0"
  using assms unfolding grp3
  by (simp add: pairHighest_def Let_def)

lemma single3:
  assumes "0 \<le> substituted a" "0 \<le> substituted b" "0 \<le> substituted c"
  shows "foldl (\<lambda>h c. if value' c \<le> 7 then max h (value' c) else h) 0 [a, b, c] =
     max (substituted a) (max (substituted b) (substituted c))"
  using assms by (auto simp: substituted_def max_def split: if_splits)

lemma envidoHighest3:
  assumes "0 \<le> substituted a" "0 \<le> substituted b" "0 \<le> substituted c"
  shows "envidoHighest [a, b, c] =
    (if suit a = suit b \<and> suit b = suit c
     then 20 + (substituted a + substituted b + substituted c
                - min (substituted a) (min (substituted b) (substituted c)))
     else if suit a = suit b then 20 + substituted a + substituted b
     else if suit a = suit c then 20 + substituted a + substituted c
     else if suit b = suit c then 20 + substituted b + substituted c
     else max (substituted a) (max (substituted b) (substituted c)))"
proof -
  consider (same) "suit a = suit b" "suit b = suit c"
    | (ab) "suit a = suit b" "suit b \<noteq> suit c"
    | (ac) "suit a = suit c" "suit a \<noteq> suit b"
    | (bc) "suit b = suit c" "suit a \<noteq> suit b"
    | (none) "suit a \<noteq> suit b" "suit a \<noteq> suit c" "suit b \<noteq> suit c"
    by metis
  then show ?thesis
  proof cases
    case same
    with assms show ?thesis
      by (simp add: envidoHighest_def code_same[OF assms same] Let_def)
  next
    case ab
    with assms show ?thesis
      by (simp add: envidoHighest_def code_ab[OF assms(1,2) ab] Let_def)
  next
    case ac
    with assms show ?thesis
      by (simp add: envidoHighest_def code_ac[OF assms(1,3) ac] Let_def)
  next
    case bc
    with assms show ?thesis
      by (simp add: envidoHighest_def code_bc[OF assms(2,3) bc] Let_def)
  next
    case none
    with single3[OF assms] show ?thesis
      by (simp add: envidoHighest_def code_none[OF none] Let_def)
  qed
qed

lemma filter_only:
  "distinct xs \<Longrightarrow> x \<in> set xs \<Longrightarrow> filter (\<lambda>s. s = x) xs = [x]"
  by (induction xs) (auto simp: filter_empty_conv)

lemma distinct_SUITS: "distinct SUITS"
  by (simp add: SUITS_def)

lemma pairSuits3:
  assumes "suit a \<in> set SUITS" "suit b \<in> set SUITS" "suit c \<in> set SUITS"
  shows "filter (\<lambda>s. length (suitValues s [a, b, c]) \<ge> 2) SUITS =
    (if suit a = suit b \<or> suit a = suit c then [suit a]
     else if suit b = suit c then [suit b] else [])"
proof -
  have *: "(\<lambda>s. length (suitValues s [a, b, c]) \<ge> 2) =
    (if suit a = suit b \<or> suit a = suit c then (\<lambda>s. s = suit a)
     else if suit b = suit c then (\<lambda>s. s = suit b) else (\<lambda>s. False))"
    by (auto simp: suitValues_def fun_eq_iff)
  show ?thesis
    unfolding * using assms by (simp add: filter_only[OF distinct_SUITS])
qed

lemma envidoSpec3:
  assumes "suit a \<in> set SUITS" "suit b \<in> set SUITS" "suit c \<in> set SUITS"
  shows "envidoSpec [a, b, c] =
    (if suit a = suit b \<and> suit b = suit c
     then 20 + (substituted a + substituted b + substituted c
                - min (substituted a) (min (substituted b) (substituted c)))
     else if suit a = suit b then 20 + substituted a + substituted b
     else if suit a = suit c then 20 + substituted a + substituted c
     else if suit b = suit c then 20 + substituted b + substituted c
     else max (substituted a) (max (substituted b) (substituted c)))"
  unfolding envidoSpec_def pairSuits3[OF assms] Let_def
  by (simp add: suitValues_def highestTwo_pair highestTwo_triple)


lemma deck_substituted:
  assumes "c \<in> set createDeck"
  shows "suit c \<in> set SUITS" "0 \<le> substituted c" "substituted c \<le> 7"
    "substituted c = 7 \<longleftrightarrow> value' c = 7"
  using assms by (auto simp: createDeck_iff substituted_def CARD_VALUES_def)

lemma deck_pair_bound:
  assumes "a \<in> set createDeck" "b \<in> set createDeck" "a \<noteq> b" "suit a = suit b"
  shows "substituted a + substituted b \<le> 13"
proof -
  from assms(3,4) have "value' a \<noteq> value' b"
    by (simp add: card_eq_iff)
  then have "\<not> (substituted a = 7 \<and> substituted b = 7)"
    using deck_substituted(4)[OF assms(1)] deck_substituted(4)[OF assms(2)] by simp
  with deck_substituted(3)[OF assms(1)] deck_substituted(3)[OF assms(2)] show ?thesis
    by linarith
qed

text \<open>
  Claim C5. For a hand of three different cards of the deck, the Envido points the code
  computes are the score the specification describes, and lie between 0 and 33; they are
  what \<^verbatim>\<open>calculateEnvidoPoints\<close> stores for either side. The three hands of the
  specification score 29, 20 and 5.
\<close>

theorem envido_score:
  assumes "length hand = 3" and "distinct hand" and "set hand \<subseteq> set createDeck"
  shows "envidoHighest hand = envidoSpec hand \<and>
         0 \<le> envidoHighest hand \<and> envidoHighest hand \<le> 33 \<and>
         player (envidoPoints (calculateEnvidoPoints s hand other)) = envidoSpec hand \<and>
         opponent (envidoPoints (calculateEnvidoPoints s other hand)) = envidoSpec hand \<and>
         envidoHighest [\<lparr>suit = ''espadas'', value' = 3\<rparr>, \<lparr>suit = ''espadas'', value' = 6\<rparr>,
                        \<lparr>suit = ''bastos'', value' = 2\<rparr>] = 29 \<and>
         envidoHighest [\<lparr>suit = ''oros'', value' = 10\<rparr>, \<lparr>suit = ''oros'', value' = 11\<rparr>,
                        \<lparr>suit = ''copas'', value' = 4\<rparr>] = 20 \<and>
         envidoHighest [\<lparr>suit = ''espadas'', value' = 5\<rparr>, \<lparr>suit = ''bastos'', value' = 2\<rparr>,
                        \<lparr>suit = ''oros'', value' = 10\<rparr>] = 5"
proof -
  from assms(1) obtain a b c where hand: "hand = [a, b, c]"
    by (auto simp: length_Suc_conv numeral_3_eq_3)
  from assms(3) hand have deck: "a \<in> set createDeck" "b \<in> set createDeck" "c \<in> set createDeck"
    by auto
  from assms(2) hand have ne: "a \<noteq> b" "a \<noteq> c" "b \<noteq> c"
    by auto
  note sa = deck_substituted[OF deck(1)] and sb = deck_substituted[OF deck(2)]
    and sc = deck_substituted[OF deck(3)]
  have code: "envidoHighest hand =
    (if suit a = suit b \<and> suit b = suit c
     then 20 + (substituted a + substituted b + substituted c
                - min (substituted a) (min (substituted b) (substituted c)))
     else if suit a = suit b then 20 + substituted a + substituted b
     else if suit a = suit c then 20 + substituted a + substituted c
     else if suit b = suit c then 20 + substituted b + substituted c
     else max (substituted a) (max (substituted b) (substituted c)))"
    unfolding hand by (rule envidoHighest3[OF sa(2) sb(2) sc(2)])
  have eq: "envidoHighest hand = envidoSpec hand"
    unfolding code unfolding hand envidoSpec3[OF sa(1) sb(1) sc(1)] ..
  have ab: "suit a = suit b \<Longrightarrow> substituted a + substituted b \<le> 13"
    and ac: "suit a = suit c \<Longrightarrow> substituted a + substituted c \<le> 13"
    and bc: "suit b = suit c \<Longrightarrow> substituted b + substituted c \<le> 13"
    using deck_pair_bound deck ne by blast+
  have lo: "0 \<le> envidoHighest hand"
    unfolding code using sa(2) sb(2) sc(2) by (simp add: min_def max_def)
  have hi: "envidoHighest hand \<le> 33"
    unfolding code using sa(3) sb(3) sc(3) ab ac bc by (auto simp: min_def max_def)
  have ex1: "envidoHighest [\<lparr>suit = ''espadas'', value' = 3\<rparr>, \<lparr>suit = ''espadas'', value' = 6\<rparr>,
                        \<lparr>suit = ''bastos'', value' = 2\<rparr>] = 29"
    by (simp add: envidoHighest3 substituted_def)
  have ex2: "envidoHighest [\<lparr>suit = ''oros'', value' = 10\<rparr>, \<lparr>suit = ''oros'', value' = 11\<rparr>,
                        \<lparr>suit = ''copas'', value' = 4\<rparr>] = 20"
    by (simp add: envidoHighest3 substituted_def)
  have ex3: "envidoHighest [\<lparr>suit = ''espadas'', value' = 5\<rparr>, \<lparr>suit = ''bastos'', value' = 2\<rparr>,
                        \<lparr>suit = ''oros'', value' = 10\<rparr>] = 5"
    by (simp add: envidoHighest3 substituted_def)
  from eq lo hi ex1 ex2 ex3 show ?thesis
    by (simp add: calculateEnvidoPoints_def)
qed

theorem envido_score_witness:
  "length [\<lparr>suit = ''espadas'', value' = 7\<rparr>, \<lparr>suit = ''espadas'', value' = 6\<rparr>,
           \<lparr>suit = ''copas'', value' = 12\<rparr>] = 3 \<and>
   distinct [\<lparr>suit = ''espadas'', value' = 7\<rparr>, \<lparr>suit = ''espadas'', value' = 6\<rparr>,
             \<lparr>suit = ''copas'', value' = 12\<rparr>] \<and>
   set [\<lparr>suit = ''espadas'', value' = 7\<rparr>, \<lparr>suit = ''espadas'', value' = 6\<rparr>,
        \<lparr>suit = ''copas'', value' = 12\<rparr>] \<subseteq> set createDeck \<and>
   envidoHighest [\<lparr>suit = ''espadas'', value' = 7\<rparr>, \<lparr>suit = ''espadas'', value' = 6\<rparr>,
                  \<lparr>suit = ''copas'', value' = 12\<rparr>] = 33 \<and>
   envidoSpec [\<lparr>suit = ''espadas'', value' = 7\<rparr>, \<lparr>suit = ''espadas'', value' = 6\<rparr>,
               \<lparr>suit = ''copas'', value' = 12\<rparr>] = 33"
proof -
  let ?h = "[\<lparr>suit = ''espadas'', value' = 7\<rparr>, \<lparr>suit = ''espadas'', value' = 6\<rparr>,
             \<lparr>suit = ''copas'', value' = 12\<rparr>]"
  have l: "length ?h = 3" and d: "distinct ?h" by simp_all
  have m: "set ?h \<subseteq> set createDeck"
    by (simp add: createDeck_iff SUITS_def CARD_VALUES_def)
  have v: "envidoSpec ?h = 33"
    by (simp add: envidoSpec3 SUITS_def substituted_def)
  from envido_score[OF l d m] l d m v show ?thesis by simp
qed

section \<open>The opponent's choice of a card\<close>

lemma sortedHand_set: "set (sortedHand hand) = set hand"
  by (simp add: sortedHand_def)

lemma sortedHand_descending:
  assumes ij: "i \<le> j" and j: "j < length (sortedHand hand)"
  shows "getCardRank (sortedHand hand ! j) \<le> getCardRank (sortedHand hand ! i)"
proof -
  have "sorted (map getCardRank (sort_key getCardRank hand))"
    by (rule sorted_sort_key)
  moreover have "map getCardRank (sortedHand hand) =
      rev (map getCardRank (sort_key getCardRank hand))"
    by (simp add: sortedHand_def rev_map)
  ultimately have "sorted_wrt (\<lambda>x y. y \<le> x) (map getCardRank (sortedHand hand))"
    by (simp only: sorted_wrt_rev)
  then have sw: "sorted_wrt (\<lambda>x y. getCardRank y \<le> getCardRank x) (sortedHand hand)"
    by (simp add: sorted_wrt_map)
  show ?thesis
  proof (cases "i = j")
    case True
    then show ?thesis by simp
  next
    case False
    with ij have "i < j" by simp
    from sorted_wrt_nth_less[OF sw this j] show ?thesis .
  qed
qed

lemma cardToPlay_winner:
  assumes "\<exists>c\<in>set hand. compareCards c t > 0"
  shows "\<exists>c. cardToPlay hand t = Some c \<and> c \<in> set hand \<and> compareCards c t > 0 \<and>
    (\<forall>d\<in>set hand. compareCards d t > 0 \<longrightarrow> getCardRank d \<le> getCardRank c)"
proof -
  let ?P = "\<lambda>c. compareCards c t > 0" and ?xs = "sortedHand hand"
  from assms have "find ?P ?xs \<noteq> None"
    unfolding find_None_iff sortedHand_set by blast
  then obtain c where c: "find ?P ?xs = Some c" by blast
  then obtain i where i: "i < length ?xs" "?P (?xs ! i)" "c = ?xs ! i"
    "\<forall>j<i. \<not> ?P (?xs ! j)"
    unfolding find_Some_iff by blast
  have le: "getCardRank d \<le> getCardRank c" if "d \<in> set hand" "?P d" for d
  proof -
    from that(1) have "d \<in> set ?xs"
      by (simp add: sortedHand_set)
    then obtain j where j: "j < length ?xs" "d = ?xs ! j"
      unfolding in_set_conv_nth by blast
    have "i \<le> j"
    proof (rule ccontr)
      assume "\<not> i \<le> j"
      then have "j < i" by simp
      with i(4) have "\<not> ?P (?xs ! j)" by blast
      with that(2) j(2) show False by simp
    qed
    from sortedHand_descending[OF this j(1)] i(3) j(2) show ?thesis by simp
  qed
  have mem: "c \<in> set hand"
    using nth_mem[OF i(1)] i(3) by (simp add: sortedHand_set)
  have "cardToPlay hand t = Some c"
    using c by (simp add: cardToPlay_def)
  with mem i(2,3) le show ?thesis by blast
qed

lemma cardToPlay_no_winner:
  assumes "hand \<noteq> []" and "\<forall>c\<in>set hand. \<not> compareCards c t > 0"
  shows "\<exists>c. cardToPlay hand t = Some c \<and> c \<in> set hand \<and>
    (\<forall>d\<in>set hand. getCardRank c \<le> getCardRank d)"
proof -
  let ?P = "\<lambda>c. compareCards c t > 0" and ?xs = "sortedHand hand"
  from assms(2) have none: "find ?P ?xs = None"
    unfolding find_None_iff sortedHand_set by blast
  have "length ?xs = length hand"
    by (simp add: sortedHand_def)
  with assms(1) have ne: "?xs \<noteq> []"
    by auto
  then have len: "length ?xs - 1 < length ?xs" by simp
  have last: "last ?xs = ?xs ! (length ?xs - 1)"
    using ne by (rule last_conv_nth)
  have le: "getCardRank (last ?xs) \<le> getCardRank d" if "d \<in> set hand" for d
  proof -
    from that have "d \<in> set ?xs"
      by (simp add: sortedHand_set)
    then obtain j where j: "j < length ?xs" "d = ?xs ! j"
      unfolding in_set_conv_nth by blast
    then have "j \<le> length ?xs - 1" by simp
    from sortedHand_descending[OF this len] j(2) last show ?thesis by simp
  qed
  have mem: "last ?xs \<in> set hand"
    using last_in_set[OF ne] by (simp add: sortedHand_set)
  have "cardToPlay hand t = Some (last ?xs)"
    using none ne by (simp add: cardToPlay_def)
  with mem le show ?thesis by blast
qed

text \<open>
  Claim C2 says that an opponent who cannot beat the card on the table plays the weakest
  card of the hand. The code takes the last card of the reversed sorted hand, which is the
  strongest: with \<open>espadas 1\<close> on the table and the hand \<open>copas 4\<close>, \<open>oros 6\<close>,
  \<open>bastos 1\<close> (rank indices 39, 30 and 1, none of which beats rank index 0) the opponent
  plays \<open>bastos 1\<close> and keeps \<open>copas 4\<close>.
\<close>

theorem opponent_losing_plays_strongest:
  "cardToPlay [\<lparr>suit = ''copas'', value' = 4\<rparr>, \<lparr>suit = ''oros'', value' = 6\<rparr>,
               \<lparr>suit = ''bastos'', value' = 1\<rparr>] \<lparr>suit = ''espadas'', value' = 1\<rparr>
     = Some \<lparr>suit = ''bastos'', value' = 1\<rparr> \<and>
   map (\<lambda>c. compareCards c \<lparr>suit = ''espadas'', value' = 1\<rparr>)
     [\<lparr>suit = ''copas'', value' = 4\<rparr>, \<lparr>suit = ''oros'', value' = 6\<rparr>,
      \<lparr>suit = ''bastos'', value' = 1\<rparr>] = [- 1, - 1, - 1] \<and>
   map getCardRank [\<lparr>suit = ''copas'', value' = 4\<rparr>, \<lparr>suit = ''oros'', value' = 6\<rparr>,
      \<lparr>suit = ''bastos'', value' = 1\<rparr>] = [39, 30, 1] \<and>
   playOpponentCard
     (initialGame\<lparr>gameState := Playing,
        opponentHand := [\<lparr>suit = ''copas'', value' = 4\<rparr>, \<lparr>suit = ''oros'', value' = 6\<rparr>,
                         \<lparr>suit = ''bastos'', value' = 1\<rparr>],
        roundCards := \<lparr>player = Some \<lparr>suit = ''espadas'', value' = 1\<rparr>, opponent = None\<rparr>\<rparr>)
   = Done
     (initialGame\<lparr>gameState := Playing,
        opponentHand := [\<lparr>suit = ''copas'', value' = 4\<rparr>, \<lparr>suit = ''oros'', value' = 6\<rparr>],
        roundCards := \<lparr>player = Some \<lparr>suit = ''espadas'', value' = 1\<rparr>,
                       opponent = Some \<lparr>suit = ''bastos'', value' = 1\<rparr>\<rparr>,
        message := MsgOpponentPlayed \<lparr>suit = ''bastos'', value' = 1\<rparr>\<rparr>)"
proof -
  let ?hand = "[\<lparr>suit = ''copas'', value' = 4\<rparr>, \<lparr>suit = ''oros'', value' = 6\<rparr>,
               \<lparr>suit = ''bastos'', value' = 1\<rparr>]"
  have r: "map getCardRank ?hand = [39, 30, 1]"
    by (simp add: getCardRank_def findIndex_def CARD_RANKING_def)
  have c: "map (\<lambda>c. compareCards c \<lparr>suit = ''espadas'', value' = 1\<rparr>) ?hand = [- 1, - 1, - 1]"
    by (simp add: compareCards_def getCardRank_def findIndex_def CARD_RANKING_def)
  have s: "sortedHand ?hand = ?hand"
    using r by (simp add: sortedHand_def)
  have p: "cardToPlay ?hand \<lparr>suit = ''espadas'', value' = 1\<rparr> = Some \<lparr>suit = ''bastos'', value' = 1\<rparr>"
    using c by (simp add: cardToPlay_def s)
  have o: "playOpponentCard
     (initialGame\<lparr>gameState := Playing, opponentHand := ?hand,
        roundCards := \<lparr>player = Some \<lparr>suit = ''espadas'', value' = 1\<rparr>, opponent = None\<rparr>\<rparr>)
   = Done
     (initialGame\<lparr>gameState := Playing,
        opponentHand := [\<lparr>suit = ''copas'', value' = 4\<rparr>, \<lparr>suit = ''oros'', value' = 6\<rparr>],
        roundCards := \<lparr>player = Some \<lparr>suit = ''espadas'', value' = 1\<rparr>,
                       opponent = Some \<lparr>suit = ''bastos'', value' = 1\<rparr>\<rparr>,
        message := MsgOpponentPlayed \<lparr>suit = ''bastos'', value' = 1\<rparr>\<rparr>)"
    by (simp add: playOpponentCard_def p initialGame_def)
  show ?thesis
    by (intro conjI p c r o)
qed

text \<open>The hand of the specification's example, where a card can win: the choice is \<open>oros 6\<close>.\<close>

lemma opponent_example:
  "cardToPlay [\<lparr>suit = ''espadas'', value' = 1\<rparr>, \<lparr>suit = ''oros'', value' = 6\<rparr>,
               \<lparr>suit = ''copas'', value' = 2\<rparr>] \<lparr>suit = ''copas'', value' = 4\<rparr>
     = Some \<lparr>suit = ''oros'', value' = 6\<rparr>"
  by code_simp

section \<open>The end of a trick and of a hand\<close>

lemma startNewHand_invariants:
  "winsConsistent (startNewHand s d) \<and> roundCounted (startNewHand s d)"
  by (simp add: startNewHand_def calculateEnvidoPoints_def Let_def winsConsistent_def
      roundCounted_def)

lemma evaluateRound_roundCounted:
  assumes "roundCounted s" and "evaluateRound s oc = Done t" and "gameState t = Playing"
  shows "roundCounted t"
proof -
  have aw: "gameState (awardHand w s u) = gameState u" for w u
    by (simp add: awardHand_def split: option.splits)
  from assms show ?thesis
    by (auto simp: evaluateRound_def Let_def roundCounted_def checkGameEnd_def aw
        split: option.splits if_splits)
qed

text \<open>The counters agree with the recorded tricks in every state reached within a hand.\<close>

lemma awardHand_keeps:
  "rounds (awardHand w s t) = rounds t \<and> roundWins (awardHand w s t) = roundWins t"
  by (simp add: awardHand_def split: option.splits)

lemma evaluateRound_winsConsistent:
  assumes "winsConsistent s" and "evaluateRound s oc = Done t"
  shows "winsConsistent t"
  using assms
  by (auto simp: evaluateRound_def Let_def winsConsistent_def checkGameEnd_def awardHand_keeps
      split: option.splits if_splits)

lemma stepHand_winsConsistent:
  assumes "winsConsistent s"
  shows "winsConsistent (stepHand a s)"
proof (cases a)
  case (ClickCard c)
  with assms show ?thesis
    by (simp add: clickCard_def playCard_def Let_def winsConsistent_def)
next
  case OpponentPlays
  with assms show ?thesis
    by (auto simp: playOpponentCard_def winsConsistent_def split: option.splits outcome.splits)
next
  case (EvaluateRound oc)
  show ?thesis
  proof (cases "evaluateRound s oc")
    case (Done t)
    with evaluateRound_winsConsistent[OF assms Done] EvaluateRound show ?thesis by simp
  next
    case (TypeError t)
    then have "t = s"
      by (auto simp: evaluateRound_def Let_def split: option.splits)
    with TypeError EvaluateRound assms show ?thesis by simp
  qed
next
  case CallTruco
  with assms show ?thesis
    by (simp add: callTruco_def Let_def winsConsistent_def)
next
  case ClickEnvido
  with assms show ?thesis
    by (simp add: clickEnvido_def callEnvido_def Let_def winsConsistent_def)
qed

lemma runHand_winsConsistent:
  "winsConsistent (foldl (\<lambda>s a. stepHand a s) (startNewHand s d) acts)"
proof -
  have "winsConsistent s \<Longrightarrow> winsConsistent (foldl (\<lambda>s a. stepHand a s) s acts)" for s
    by (induction acts arbitrary: s) (simp_all add: stepHand_winsConsistent)
  moreover have "winsConsistent (startNewHand s d)"
    by (simp add: startNewHand_def calculateEnvidoPoints_def Let_def winsConsistent_def)
  ultimately show ?thesis .
qed

lemma find_winner_map:
  "map_option winner (find (\<lambda>r. winner r \<noteq> Tie) rs) = find (\<lambda>w. w \<noteq> Tie) (map winner rs)"
  by (induction rs) simp_all

lemma find_snoc:
  "find P (xs @ [x]) = (case find P xs of Some y \<Rightarrow> Some y | None \<Rightarrow> if P x then Some x else None)"
  by (induction xs) simp_all

lemma all_tied_counts:
  "find (\<lambda>w. w \<noteq> Tie) ws = None \<Longrightarrow> count_list ws Player = 0 \<and> count_list ws Opponent = 0"
  by (induction ws) (auto split: if_splits)

text \<open>The winner the code determines: it compares the counters after the trick and,
  when they are equal, looks for the first trick not tied among those recorded before.\<close>

lemma handWinnerSpec_snoc:
  "handWinnerSpec (ws @ [w]) =
     (if count_list (ws @ [w]) Player > count_list (ws @ [w]) Opponent then Player
      else if count_list (ws @ [w]) Player < count_list (ws @ [w]) Opponent then Opponent
      else (case find (\<lambda>w. w \<noteq> Tie) ws of Some v \<Rightarrow> v | None \<Rightarrow> Tie))"
proof (cases "find (\<lambda>w. w \<noteq> Tie) ws")
  case None
  from all_tied_counts[OF this] None show ?thesis
    by (cases w) (simp_all add: handWinnerSpec_def find_snoc)
next
  case (Some v)
  then show ?thesis
    by (simp add: handWinnerSpec_def find_snoc)
qed

lemma awardHand_scores:
  assumes "player w = int (count_list ws Player)" "opponent w = int (count_list ws Opponent)"
    and "ws = map winner (rounds s) @ [x]"
  shows "playerScore (awardHand w s t) =
           playerScore t + (if handWinnerSpec ws = Player then trucoValue s else 0) \<and>
         opponentScore (awardHand w s t) =
           opponentScore t + (if handWinnerSpec ws = Opponent then trucoValue s else 0) \<and>
         gameState (awardHand w s t) = gameState t \<and> rounds (awardHand w s t) = rounds t \<and>
         roundWins (awardHand w s t) = roundWins t \<and> envido (awardHand w s t) = envido t \<and>
         currentRound (awardHand w s t) = currentRound t"
proof -
  have f: "find (\<lambda>w. w \<noteq> Tie) (map winner (rounds s)) =
      map_option winner (find (\<lambda>r. winner r \<noteq> Tie) (rounds s))"
    by (simp add: find_winner_map)
  show ?thesis
  proof (cases "find (\<lambda>r. winner r \<noteq> Tie) (rounds s)")
    case None
    with assms f show ?thesis
      unfolding assms(3) handWinnerSpec_snoc awardHand_def by simp
  next
    case (Some r)
    then have "winner r \<noteq> Tie"
      by (auto simp: find_Some_iff)
    with Some assms f show ?thesis
      unfolding assms(3) handWinnerSpec_snoc awardHand_def
      by (cases "winner r") simp_all
  qed
qed

lemma checkGameEnd_fields:
  "playerScore (checkGameEnd s t) = playerScore t \<and>
   opponentScore (checkGameEnd s t) = opponentScore t \<and>
   rounds (checkGameEnd s t) = rounds t \<and> roundWins (checkGameEnd s t) = roundWins t \<and>
   envido (checkGameEnd s t) = envido t \<and> currentRound (checkGameEnd s t) = currentRound t \<and>
   (gameState (checkGameEnd s t) =
      (if playerScore s \<ge> 15 \<or> opponentScore s \<ge> 15 then GameEnd else gameState t))"
  by (simp add: checkGameEnd_def)

text \<open>
  Claim C3. In a state whose counters of tricks won agree with the tricks recorded,
  \<^verbatim>\<open>evaluateRound\<close> records the trick and keeps that agreement. When a side has then
  won two tricks or the third trick has been resolved (or both hands are empty), the hand
  is over: the side the specification names the winner of the recorded tricks (more
  tricks won; on equal numbers the winner of the first trick not tied) gains the current
  Truco value and the other side gains nothing, and nobody gains anything when every trick
  was tied. Otherwise the next trick starts and no score changes. The tricks tied, won by
  the player, won by the opponent, in this order, make the player the winner.
\<close>

theorem hand_winner:
  assumes "winsConsistent s" and "player (roundCards s) = Some pc"
  shows "\<exists>s'. evaluateRound s oc = Done s' \<and> winsConsistent s' \<and>
     rounds s' = rounds s @
       [\<lparr>playerCard = pc, opponentCard = oc,
         winner = (if compareCards pc oc > 0 then Player
                   else if compareCards pc oc < 0 then Opponent else Tie)\<rparr>] \<and>
     (if 2 \<le> player (roundWins s') \<or> 2 \<le> opponent (roundWins s') \<or> 3 \<le> currentRound s \<or>
         (playerHand s = [] \<and> opponentHand s = [])
      then gameState s' \<noteq> Playing \<and>
           playerScore s' = playerScore s +
             (if handWinnerSpec (map winner (rounds s')) = Player then trucoValue s else 0) \<and>
           opponentScore s' = opponentScore s +
             (if handWinnerSpec (map winner (rounds s')) = Opponent then trucoValue s else 0)
      else gameState s' = Playing \<and> currentRound s' = currentRound s + 1 \<and>
           playerScore s' = playerScore s \<and> opponentScore s' = opponentScore s) \<and>
     handWinnerSpec [Tie, Player, Opponent] = Player \<and>
     handWinnerSpec [Tie, Tie, Tie] = Tie"
proof -
  define res where "res = compareCards pc oc"
  define w where "w = (if res > 0 then Player else if res < 0 then Opponent else Tie)"
  define nw where "nw =
    (if res > 0 then (roundWins s)\<lparr>player := player (roundWins s) + 1\<rparr>
     else if res < 0 then (roundWins s)\<lparr>opponent := opponent (roundWins s) + 1\<rparr>
     else roundWins s)"
  define rec where "rec = \<lparr>playerCard = pc, opponentCard = oc, winner = w\<rparr>"
  define s2 where "s2 =
    s\<lparr>message := (if res > 0 then MsgRoundWon else if res < 0 then MsgRoundLost else MsgRoundTied),
      rounds := rounds s @ [rec], roundWins := nw,
      roundCards := \<lparr>player = None, opponent = None\<rparr>\<rparr>"
  define s' where "s' =
    (if handIsOver nw s then checkGameEnd s ((awardHand nw s s2)\<lparr>gameState := RoundEnd\<rparr>)
     else s2\<lparr>currentRound := currentRound s2 + 1, gameState := Playing\<rparr>)"
  have ev: "evaluateRound s oc = Done s'"
    using assms(2)
    by (simp add: evaluateRound_def Let_def s'_def s2_def rec_def nw_def w_def res_def)
  let ?ws = "map winner (rounds s) @ [w]"
  have cnt: "player nw = int (count_list ?ws Player)" "opponent nw = int (count_list ?ws Opponent)"
    using assms(1) by (auto simp: winsConsistent_def nw_def w_def)
  have s2f: "rounds s2 = rounds s @ [rec]" "roundWins s2 = nw" "playerScore s2 = playerScore s"
    "opponentScore s2 = opponentScore s" "currentRound s2 = currentRound s"
    by (simp_all add: s2_def)
  note aw = awardHand_scores[OF cnt refl, of s2]
  note ck = checkGameEnd_fields[of s "(awardHand nw s s2)\<lparr>gameState := RoundEnd\<rparr>"]
  have r': "rounds s' = rounds s @ [rec]" and w': "roundWins s' = nw"
    using aw ck s2f by (simp_all add: s'_def)
  have ws': "map winner (rounds s') = ?ws"
    by (simp add: r' rec_def)
  have cons: "winsConsistent s'"
    using cnt by (simp add: winsConsistent_def ws' w')
  have over: "handIsOver nw s \<longleftrightarrow>
      2 \<le> player (roundWins s') \<or> 2 \<le> opponent (roundWins s') \<or> 3 \<le> currentRound s \<or>
      (playerHand s = [] \<and> opponentHand s = [])"
    by (auto simp: handIsOver_def w')
  have fin: "gameState s' \<noteq> Playing \<and>
      playerScore s' = playerScore s +
        (if handWinnerSpec (map winner (rounds s')) = Player then trucoValue s else 0) \<and>
      opponentScore s' = opponentScore s +
        (if handWinnerSpec (map winner (rounds s')) = Opponent then trucoValue s else 0)"
    if "handIsOver nw s"
    using that aw ck s2f unfolding ws' by (simp add: s'_def)
  have cont: "gameState s' = Playing \<and> currentRound s' = currentRound s + 1 \<and>
      playerScore s' = playerScore s \<and> opponentScore s' = opponentScore s"
    if "\<not> handIsOver nw s"
    using that s2f by (simp add: s'_def)
  have ex: "handWinnerSpec [Tie, Player, Opponent] = Player" "handWinnerSpec [Tie, Tie, Tie] = Tie"
    by (simp_all add: handWinnerSpec_def)
  have rnd: "rounds s' = rounds s @
       [\<lparr>playerCard = pc, opponentCard = oc,
         winner = (if compareCards pc oc > 0 then Player
                   else if compareCards pc oc < 0 then Opponent else Tie)\<rparr>]"
    by (simp add: r' rec_def w_def res_def)
  have mid: "if 2 \<le> player (roundWins s') \<or> 2 \<le> opponent (roundWins s') \<or> 3 \<le> currentRound s \<or>
         (playerHand s = [] \<and> opponentHand s = [])
      then gameState s' \<noteq> Playing \<and>
           playerScore s' = playerScore s +
             (if handWinnerSpec (map winner (rounds s')) = Player then trucoValue s else 0) \<and>
           opponentScore s' = opponentScore s +
             (if handWinnerSpec (map winner (rounds s')) = Opponent then trucoValue s else 0)
      else gameState s' = Playing \<and> currentRound s' = currentRound s + 1 \<and>
           playerScore s' = playerScore s \<and> opponentScore s' = opponentScore s"
  proof (cases "handIsOver nw s")
    case True
    from True over have c: "2 \<le> player (roundWins s') \<or> 2 \<le> opponent (roundWins s') \<or>
        3 \<le> currentRound s \<or> (playerHand s = [] \<and> opponentHand s = [])"
      by blast
    show ?thesis
      by (subst if_P[OF c]) (rule fin[OF True])
  next
    case False
    from False over have c: "\<not> (2 \<le> player (roundWins s') \<or> 2 \<le> opponent (roundWins s') \<or>
        3 \<le> currentRound s \<or> (playerHand s = [] \<and> opponentHand s = []))"
      by blast
    show ?thesis
      by (subst if_not_P[OF c]) (rule cont[OF False])
  qed
  show ?thesis
    by (rule exI[of _ s']) (intro conjI ev cons rnd mid ex)
qed

theorem hand_winner_witness:
  "winsConsistent
     (initialGame\<lparr>gameState := Playing, currentRound := 3, truco := True, trucoValue := 2,
        playerScore := 5, opponentScore := 7,
        rounds := [\<lparr>playerCard = \<lparr>suit = ''espadas'', value' = 1\<rparr>,
                    opponentCard = \<lparr>suit = ''espadas'', value' = 1\<rparr>, winner = Tie\<rparr>,
                   \<lparr>playerCard = \<lparr>suit = ''espadas'', value' = 1\<rparr>,
                    opponentCard = \<lparr>suit = ''copas'', value' = 4\<rparr>, winner = Player\<rparr>],
        roundWins := \<lparr>player = 1, opponent = 0\<rparr>,
        roundCards := \<lparr>player = Some \<lparr>suit = ''copas'', value' = 4\<rparr>,
                       opponent = Some \<lparr>suit = ''espadas'', value' = 1\<rparr>\<rparr>\<rparr>) \<and>
   (\<exists>s'. evaluateRound
     (initialGame\<lparr>gameState := Playing, currentRound := 3, truco := True, trucoValue := 2,
        playerScore := 5, opponentScore := 7,
        rounds := [\<lparr>playerCard = \<lparr>suit = ''espadas'', value' = 1\<rparr>,
                    opponentCard = \<lparr>suit = ''espadas'', value' = 1\<rparr>, winner = Tie\<rparr>,
                   \<lparr>playerCard = \<lparr>suit = ''espadas'', value' = 1\<rparr>,
                    opponentCard = \<lparr>suit = ''copas'', value' = 4\<rparr>, winner = Player\<rparr>],
        roundWins := \<lparr>player = 1, opponent = 0\<rparr>,
        roundCards := \<lparr>player = Some \<lparr>suit = ''copas'', value' = 4\<rparr>,
                       opponent = Some \<lparr>suit = ''espadas'', value' = 1\<rparr>\<rparr>\<rparr>)
     \<lparr>suit = ''espadas'', value' = 1\<rparr> = Done s' \<and>
     map winner (rounds s') = [Tie, Player, Opponent] \<and>
     roundWins s' = \<lparr>player = 1, opponent = 1\<rparr> \<and>
     playerScore s' = 7 \<and> opponentScore s' = 7 \<and> gameState s' = RoundEnd)"
proof -
  let ?pc = "\<lparr>suit = ''copas'', value' = 4\<rparr>" and ?oc = "\<lparr>suit = ''espadas'', value' = 1\<rparr>"
  let ?s = "initialGame\<lparr>gameState := Playing, currentRound := 3, truco := True, trucoValue := 2,
        playerScore := 5, opponentScore := 7,
        rounds := [\<lparr>playerCard = ?oc, opponentCard = ?oc, winner = Tie\<rparr>,
                   \<lparr>playerCard = ?oc, opponentCard = ?pc, winner = Player\<rparr>],
        roundWins := \<lparr>player = 1, opponent = 0\<rparr>,
        roundCards := \<lparr>player = Some ?pc, opponent = Some ?oc\<rparr>\<rparr>"
  have c: "winsConsistent ?s"
    by (simp add: winsConsistent_def)
  have p: "player (roundCards ?s) = Some ?pc"
    by simp
  have cmp: "compareCards ?pc ?oc = - 1"
    by (simp add: compareCards_def getCardRank_def findIndex_def CARD_RANKING_def)
  from hand_winner[OF c p, of ?oc] obtain s' where s': "evaluateRound ?s ?oc = Done s'"
    "winsConsistent s'"
    "rounds s' = rounds ?s @ [\<lparr>playerCard = ?pc, opponentCard = ?oc,
         winner = (if compareCards ?pc ?oc > 0 then Player
                   else if compareCards ?pc ?oc < 0 then Opponent else Tie)\<rparr>]"
    "if 2 \<le> player (roundWins s') \<or> 2 \<le> opponent (roundWins s') \<or> 3 \<le> currentRound ?s \<or>
         (playerHand ?s = [] \<and> opponentHand ?s = [])
      then gameState s' \<noteq> Playing \<and>
           playerScore s' = playerScore ?s +
             (if handWinnerSpec (map winner (rounds s')) = Player then trucoValue ?s else 0) \<and>
           opponentScore s' = opponentScore ?s +
             (if handWinnerSpec (map winner (rounds s')) = Opponent then trucoValue ?s else 0)
      else gameState s' = Playing \<and> currentRound s' = currentRound ?s + 1 \<and>
           playerScore s' = playerScore ?s \<and> opponentScore s' = opponentScore ?s"
    by blast
  have ws: "map winner (rounds s') = [Tie, Player, Opponent]"
    using s'(3) cmp by simp
  have sc: "playerScore s' = 7" "opponentScore s' = 7"
    using s'(4) unfolding ws by (simp_all add: handWinnerSpec_def)
  have rw: "roundWins s' = \<lparr>player = 1, opponent = 1\<rparr>"
    using s'(2) unfolding winsConsistent_def ws by (cases "roundWins s'") simp
  have gs: "gameState s' = RoundEnd"
    using s'(1) p cmp
    by (auto simp: evaluateRound_def Let_def handIsOver_def checkGameEnd_def awardHand_def
        initialGame_def)
  show ?thesis
    by (rule conjI[OF c], rule exI[of _ s']) (intro conjI s'(1) ws rw sc gs)
qed

text \<open>The test for the end of the game reads the scores the handler was called with.\<close>

lemma game_end_reads_entry_scores:
  assumes "player (roundCards s) = Some pc" and "evaluateRound s oc = Done t"
  shows "gameState t = GameEnd \<longleftrightarrow>
           handIsOver (roundWins t) s \<and> (playerScore s \<ge> 15 \<or> opponentScore s \<ge> 15)"
proof -
  have aw: "gameState (awardHand w s u) = gameState u \<and> roundWins (awardHand w s u) = roundWins u"
    for w u
    by (simp add: awardHand_def split: option.splits)
  from assms show ?thesis
    by (auto simp: evaluateRound_def Let_def checkGameEnd_def aw handIsOver_def
        split: if_splits)
qed

text \<open>
  Claim C4 says that the match ends as soon as a score has reached 15 by the points of a
  hand. The test for the end of the game reads the scores of the handler's closure, which
  are those from before the hand's points were added: a player at 14 points who wins the
  hand at Truco value 1 has 15 points, and the state is \<^verbatim>\<open>roundEnd\<close> with the message
  that asks for the next hand.
\<close>

theorem game_end_missed_at_15:
  "\<exists>t. evaluateRound
     (initialGame\<lparr>gameState := Playing, currentRound := 2, playerScore := 14,
        playerHand := [\<lparr>suit = ''oros'', value' = 5\<rparr>],
        opponentHand := [\<lparr>suit = ''oros'', value' = 4\<rparr>],
        rounds := [\<lparr>playerCard = \<lparr>suit = ''espadas'', value' = 1\<rparr>,
                    opponentCard = \<lparr>suit = ''copas'', value' = 4\<rparr>, winner = Player\<rparr>],
        roundWins := \<lparr>player = 1, opponent = 0\<rparr>,
        roundCards := \<lparr>player = Some \<lparr>suit = ''bastos'', value' = 1\<rparr>,
                       opponent = Some \<lparr>suit = ''copas'', value' = 5\<rparr>\<rparr>\<rparr>)
     \<lparr>suit = ''copas'', value' = 5\<rparr> = Done t \<and>
     roundWins t = \<lparr>player = 2, opponent = 0\<rparr> \<and>
     playerScore t = 15 \<and> opponentScore t = 0 \<and>
     gameState t = RoundEnd \<and> message t = MsgNextHand"
proof -
  have cmp: "compareCards \<lparr>suit = ''bastos'', value' = 1\<rparr> \<lparr>suit = ''copas'', value' = 5\<rparr> = 1"
    by (simp add: compareCards_def getCardRank_def findIndex_def CARD_RANKING_def)
  show ?thesis
    by (simp add: evaluateRound_def Let_def cmp handIsOver_def checkGameEnd_def awardHand_def
        initialGame_def)
qed

section \<open>Playing a card\<close>

text \<open>
  Claim C6, as amended. \<^verbatim>\<open>playCard\<close> checks neither that the card is in the hand nor
  that the player's slot is empty, and it has no error to signal. Outside the state
  \<^verbatim>\<open>playing\<close> it returns at once and the state is unchanged. In the state
  \<^verbatim>\<open>playing\<close> it puts the card in the player's slot, whatever the slot held, and
  removes from the hand the cards equal to it (none when the card is absent); the
  opponent's hand and slot, the tricks recorded, the counters, the scores and the betting
  state are unchanged. A card that is not in the hand, or any card while the slot is
  filled, is kept from being played by the display alone: a click on it leaves the state
  unchanged.
\<close>

theorem playCard_unguarded:
  "(gameState s \<noteq> Playing \<longrightarrow> playCard s c = s) \<and>
   (gameState s = Playing \<longrightarrow>
      player (roundCards (playCard s c)) = Some c \<and>
      opponent (roundCards (playCard s c)) = opponent (roundCards s) \<and>
      playerHand (playCard s c) = filter (\<lambda>c'. c' \<noteq> c) (playerHand s) \<and>
      (c \<notin> set (playerHand s) \<longrightarrow> playerHand (playCard s c) = playerHand s) \<and>
      message (playCard s c) = MsgYouPlayed c \<and>
      opponentHand (playCard s c) = opponentHand s \<and>
      roundWins (playCard s c) = roundWins s \<and>
      rounds (playCard s c) = rounds s \<and>
      currentRound (playCard s c) = currentRound s \<and>
      playerScore (playCard s c) = playerScore s \<and>
      opponentScore (playCard s c) = opponentScore s \<and>
      truco (playCard s c) = truco s \<and>
      trucoValue (playCard s c) = trucoValue s \<and>
      envido (playCard s c) = envido s \<and>
      gameState (playCard s c) = Playing) \<and>
   (c \<notin> set (playerHand s) \<longrightarrow> clickCard s c = s) \<and>
   (player (roundCards s) \<noteq> None \<longrightarrow> clickCard s c = s)"
proof -
  have eq: "(\<lambda>c'. \<not> (suit c' = suit c \<and> value' c' = value' c)) = (\<lambda>c'. c' \<noteq> c)"
    by (simp add: card_eq_iff)
  have "c \<notin> set (playerHand s) \<Longrightarrow> filter (\<lambda>c'. c' \<noteq> c) (playerHand s) = playerHand s"
    by (simp add: filter_id_conv) blast
  then have "(gameState s \<noteq> Playing \<longrightarrow> playCard s c = s) \<and>
   (gameState s = Playing \<longrightarrow>
      player (roundCards (playCard s c)) = Some c \<and>
      opponent (roundCards (playCard s c)) = opponent (roundCards s) \<and>
      playerHand (playCard s c) = filter (\<lambda>c'. c' \<noteq> c) (playerHand s) \<and>
      (c \<notin> set (playerHand s) \<longrightarrow> playerHand (playCard s c) = playerHand s) \<and>
      message (playCard s c) = MsgYouPlayed c \<and>
      opponentHand (playCard s c) = opponentHand s \<and>
      roundWins (playCard s c) = roundWins s \<and>
      rounds (playCard s c) = rounds s \<and>
      currentRound (playCard s c) = currentRound s \<and>
      playerScore (playCard s c) = playerScore s \<and>
      opponentScore (playCard s c) = opponentScore s \<and>
      truco (playCard s c) = truco s \<and>
      trucoValue (playCard s c) = trucoValue s \<and>
      envido (playCard s c) = envido s \<and>
      gameState (playCard s c) = Playing)"
    unfolding playCard_def Let_def eq by simp
  moreover have "c \<notin> set (playerHand s) \<longrightarrow> clickCard s c = s"
    "player (roundCards s) \<noteq> None \<longrightarrow> clickCard s c = s"
    by (simp_all add: clickCard_def cardPlayable_def)
  ultimately show ?thesis
    by (intro conjI) blast+
qed

theorem playCard_unguarded_witness:
  "gameState (initialGame\<lparr>gameState := Playing,
                          playerHand := [\<lparr>suit = ''espadas'', value' = 1\<rparr>]\<rparr>) = Playing \<and>
   \<lparr>suit = ''copas'', value' = 4\<rparr> \<notin>
     set (playerHand (initialGame\<lparr>gameState := Playing,
                                 playerHand := [\<lparr>suit = ''espadas'', value' = 1\<rparr>]\<rparr>)) \<and>
   player (roundCards (playCard (initialGame\<lparr>gameState := Playing,
                         playerHand := [\<lparr>suit = ''espadas'', value' = 1\<rparr>]\<rparr>)
       \<lparr>suit = ''copas'', value' = 4\<rparr>)) = Some \<lparr>suit = ''copas'', value' = 4\<rparr> \<and>
   playerHand (playCard (initialGame\<lparr>gameState := Playing,
                         playerHand := [\<lparr>suit = ''espadas'', value' = 1\<rparr>]\<rparr>)
       \<lparr>suit = ''copas'', value' = 4\<rparr>) = [\<lparr>suit = ''espadas'', value' = 1\<rparr>] \<and>
   gameState initialGame \<noteq> Playing \<and>
   playCard initialGame \<lparr>suit = ''copas'', value' = 4\<rparr> = initialGame"
proof -
  let ?s = "initialGame\<lparr>gameState := Playing, playerHand := [\<lparr>suit = ''espadas'', value' = 1\<rparr>]\<rparr>"
  let ?c = "\<lparr>suit = ''copas'', value' = 4\<rparr>"
  have g: "gameState ?s = Playing" by simp
  have n: "?c \<notin> set (playerHand ?s)" by simp
  have i: "gameState initialGame \<noteq> Playing" by (simp add: initialGame_def)
  from playCard_unguarded[of ?s ?c] playCard_unguarded[of initialGame ?c] g n i
  show ?thesis by simp
qed

text \<open>
  Claim C6 as the specification states it fails: in the state \<^verbatim>\<open>playing\<close>, a card
  that is not in the hand is placed in the player's slot, and a card played while the
  slot is filled replaces the card in the slot; the state changes in both cases.
\<close>

theorem playCard_rejects_counterexample:
  "\<lparr>suit = ''copas'', value' = 4\<rparr> \<notin>
     set (playerHand (initialGame\<lparr>gameState := Playing,
                                 playerHand := [\<lparr>suit = ''espadas'', value' = 1\<rparr>]\<rparr>)) \<and>
   playCard (initialGame\<lparr>gameState := Playing,
                         playerHand := [\<lparr>suit = ''espadas'', value' = 1\<rparr>]\<rparr>)
       \<lparr>suit = ''copas'', value' = 4\<rparr>
     \<noteq> initialGame\<lparr>gameState := Playing, playerHand := [\<lparr>suit = ''espadas'', value' = 1\<rparr>]\<rparr> \<and>
   roundCards (playCard (initialGame\<lparr>gameState := Playing,
                         playerHand := [\<lparr>suit = ''espadas'', value' = 1\<rparr>]\<rparr>)
       \<lparr>suit = ''copas'', value' = 4\<rparr>)
     = \<lparr>player = Some \<lparr>suit = ''copas'', value' = 4\<rparr>, opponent = None\<rparr> \<and>
   player (roundCards (initialGame\<lparr>gameState := Playing,
       playerHand := [\<lparr>suit = ''copas'', value' = 4\<rparr>],
       roundCards := \<lparr>player = Some \<lparr>suit = ''espadas'', value' = 1\<rparr>, opponent = None\<rparr>\<rparr>))
     \<noteq> None \<and>
   playCard (initialGame\<lparr>gameState := Playing,
       playerHand := [\<lparr>suit = ''copas'', value' = 4\<rparr>],
       roundCards := \<lparr>player = Some \<lparr>suit = ''espadas'', value' = 1\<rparr>, opponent = None\<rparr>\<rparr>)
       \<lparr>suit = ''copas'', value' = 4\<rparr>
     \<noteq> initialGame\<lparr>gameState := Playing,
       playerHand := [\<lparr>suit = ''copas'', value' = 4\<rparr>],
       roundCards := \<lparr>player = Some \<lparr>suit = ''espadas'', value' = 1\<rparr>, opponent = None\<rparr>\<rparr>"
  by (simp add: playCard_def initialGame_def Let_def)

section \<open>Calling Truco\<close>

lemma callTruco_range:
  "trucoValue s \<in> {1, 2, 3, 4} \<Longrightarrow> trucoValue (callTruco s) \<in> {1, 2, 3, 4}"
  by (auto simp: callTruco_def Let_def)

lemma callTruco_iter_range:
  "trucoValue s \<in> {1, 2, 3, 4} \<Longrightarrow> trucoValue ((callTruco ^^ n) s) \<in> {1, 2, 3, 4}"
  by (induction n) (simp_all add: callTruco_range del: insert_iff)

lemma startNewHand_fresh:
  "truco (startNewHand s d) = False \<and> trucoValue (startNewHand s d) = 1 \<and>
   envido (startNewHand s d) = False \<and> rounds (startNewHand s d) = [] \<and>
   currentRound (startNewHand s d) = 1 \<and> gameState (startNewHand s d) = Playing \<and>
   roundWins (startNewHand s d) = \<lparr>player = 0, opponent = 0\<rparr> \<and>
   roundCards (startNewHand s d) = \<lparr>player = None, opponent = None\<rparr>"
  by (simp add: startNewHand_def calculateEnvidoPoints_def Let_def)

lemma callTruco_fresh:
  assumes "truco h = False" and "trucoValue h = 1"
  shows "trucoValue (callTruco h) = 2"
    and "trucoValue (callTruco (callTruco h)) = 3"
    and "trucoValue (callTruco (callTruco (callTruco h))) = 4"
    and "callTruco (callTruco (callTruco (callTruco h))) = callTruco (callTruco (callTruco h))"
    and "message (callTruco (callTruco (callTruco h))) = MsgCalled ''Vale Cuatro'' 4"
proof -
  have 1: "truco (callTruco h)" "trucoValue (callTruco h) = 2"
    using assms by (simp_all add: callTruco_def)
  have 2: "truco (callTruco (callTruco h))" "trucoValue (callTruco (callTruco h)) = 3"
    using 1 by (simp_all add: callTruco_def[of "callTruco h"] Let_def)
  have 3: "truco (callTruco (callTruco (callTruco h)))"
    "trucoValue (callTruco (callTruco (callTruco h))) = 4"
    "message (callTruco (callTruco (callTruco h))) = MsgCalled ''Vale Cuatro'' 4"
    using 2 by (simp_all add: callTruco_def[of "callTruco (callTruco h)"] Let_def)
  have 4: "callTruco (callTruco (callTruco (callTruco h))) = callTruco (callTruco (callTruco h))"
    using 3 by (simp add: callTruco_def[of "callTruco (callTruco (callTruco h))"] Let_def)
  from 1 2 3 4 show "trucoValue (callTruco h) = 2"
    and "trucoValue (callTruco (callTruco h)) = 3"
    and "trucoValue (callTruco (callTruco (callTruco h))) = 4"
    and "callTruco (callTruco (callTruco (callTruco h))) = callTruco (callTruco (callTruco h))"
    and "message (callTruco (callTruco (callTruco h))) = MsgCalled ''Vale Cuatro'' 4"
    by simp_all
qed

text \<open>
  Claim C7, as amended. From a fresh hand (no Truco called, value 1) three calls of
  \<^verbatim>\<open>callTruco\<close> move the value to 2, 3 and 4, and a fourth call is ignored: the handler
  returns without signalling anything and leaves the whole state as the third call left
  it. After any number of calls the value is one of 1, 2, 3 and 4.
\<close>

theorem truco_levels:
  "truco (startNewHand s d) = False \<and>
   trucoValue (startNewHand s d) = 1 \<and>
   trucoValue (callTruco (startNewHand s d)) = 2 \<and>
   trucoValue (callTruco (callTruco (startNewHand s d))) = 3 \<and>
   trucoValue (callTruco (callTruco (callTruco (startNewHand s d)))) = 4 \<and>
   callTruco (callTruco (callTruco (callTruco (startNewHand s d)))) =
     callTruco (callTruco (callTruco (startNewHand s d))) \<and>
   (\<forall>n. trucoValue ((callTruco ^^ n) (startNewHand s d)) \<in> {1, 2, 3, 4})"
proof -
  let ?h = "startNewHand s d"
  have f: "truco ?h = False" "trucoValue ?h = 1"
    using startNewHand_fresh[of s d] by simp_all
  have "\<forall>n. trucoValue ((callTruco ^^ n) ?h) \<in> {1, 2, 3, 4}"
    using callTruco_iter_range[of ?h] f(2) by simp
  with f callTruco_fresh(1-4)[OF f] show ?thesis
    by (intro conjI)
qed

text \<open>
  Claim C7 as the specification states it fails where it has the fourth call rejected as
  an error: after the third call in a fresh hand the fourth call completes as the others
  do and returns the state it was given, with Truco value 4 and the message of the third
  call still in place.
\<close>

theorem truco_fourth_call_counterexample:
  "callTruco (callTruco (callTruco (callTruco (startNewHand initialGame createDeck)))) =
     callTruco (callTruco (callTruco (startNewHand initialGame createDeck))) \<and>
   trucoValue (callTruco (callTruco (callTruco (callTruco
     (startNewHand initialGame createDeck))))) = 4 \<and>
   message (callTruco (callTruco (callTruco (callTruco
     (startNewHand initialGame createDeck))))) = MsgCalled ''Vale Cuatro'' 4"
proof -
  let ?h = "startNewHand initialGame createDeck"
  have f: "truco ?h = False" "trucoValue ?h = 1"
    using startNewHand_fresh[of initialGame createDeck] by simp_all
  note c = callTruco_fresh[OF f]
  show ?thesis
    unfolding c(4) by (intro conjI refl c(3) c(5))
qed

section \<open>Calling Envido\<close>

lemma awardHand_envido: "envido (awardHand w s t) = envido t"
  by (simp add: awardHand_def split: option.splits)

lemma evaluateRound_envido: "evaluateRound s oc = Done t \<Longrightarrow> envido t = envido s"
  by (auto simp: evaluateRound_def Let_def checkGameEnd_def awardHand_envido
      split: option.splits if_splits)

lemma playOpponentCard_envido: "playOpponentCard s = Done t \<Longrightarrow> envido t = envido s"
  by (auto simp: playOpponentCard_def split: option.splits if_splits)

lemma stepHand_envido: "envido s \<Longrightarrow> envido (stepHand a s)"
proof (cases a)
  case (ClickCard c)
  then show "envido s \<Longrightarrow> ?thesis"
    by (simp add: clickCard_def playCard_def Let_def)
next
  case OpponentPlays
  then show "envido s \<Longrightarrow> ?thesis"
    by (auto simp: playOpponentCard_def split: option.splits outcome.splits)
next
  case (EvaluateRound oc)
  then show "envido s \<Longrightarrow> ?thesis"
    by (auto simp: evaluateRound_def Let_def checkGameEnd_def awardHand_envido
        split: option.splits outcome.splits)
next
  case CallTruco
  then show "envido s \<Longrightarrow> ?thesis"
    by (simp add: callTruco_def Let_def)
next
  case ClickEnvido
  then show "envido s \<Longrightarrow> ?thesis"
    by (simp add: clickEnvido_def callEnvido_def)
qed

lemma envidoSuccesses_called: "envido s \<Longrightarrow> envidoSuccesses acts s = 0"
  by (induction acts arbitrary: s) (simp_all add: stepHand_envido envidoButtonEnabled_def)

lemma envidoSuccesses_once: "envidoSuccesses acts s \<le> 1"
proof (induction acts arbitrary: s)
  case Nil
  show ?case by simp
next
  case (Cons a acts)
  show ?case
  proof (cases "a = ClickEnvido \<and> envidoButtonEnabled s")
    case True
    then have "envido (stepHand a s)"
      by (simp add: clickEnvido_def callEnvido_def Let_def)
    from envidoSuccesses_called[OF this] True show ?thesis by simp
  next
    case False
    with Cons.IH[of "stepHand a s"] show ?thesis by auto
  qed
qed

text \<open>
  Claim C8, as amended. \<^verbatim>\<open>callEnvido\<close> tests the flag \<^verbatim>\<open>envido\<close> and nothing
  else: with the flag set it returns at once and the state is unchanged, and with the flag
  unset it succeeds in whatever trick and phase it is called. It sets the flag, no other
  handler of a hand changes the flag and only \<^verbatim>\<open>startNewHand\<close> clears it, so it
  succeeds at most once in a hand. The restriction to the first trick is the Envido
  button's: the button is disabled after the first round, so a click in the second or
  third trick changes nothing, a click that has an effect happens in the first round with
  the player's slot empty, when no trick of the hand has been recorded, and along any
  sequence of actions within a hand at most one click finds the button enabled. A call
  that succeeds gives 2 points to the player when the player's Envido points are strictly
  higher and 2 points to the opponent otherwise (the tie included), and it leaves the
  Truco value, the tricks and the counters alone.
\<close>

theorem envido_once:
  "(envido s \<longrightarrow> callEnvido s = s \<and> clickEnvido s = s) \<and>
   envido (callEnvido s) \<and>
   (currentRound s > 1 \<longrightarrow> clickEnvido s = s) \<and>
   (clickEnvido s \<noteq> s \<longrightarrow>
      clickEnvido s = callEnvido s \<and> \<not> envido s \<and> currentRound s \<le> 1 \<and>
      gameState s = Playing \<and> player (roundCards s) = None \<and>
      (roundCounted s \<longrightarrow> rounds s = [])) \<and>
   (\<not> envido s \<longrightarrow>
      playerScore (callEnvido s) = playerScore s +
        (if player (envidoPoints s) > opponent (envidoPoints s) then 2 else 0) \<and>
      opponentScore (callEnvido s) = opponentScore s +
        (if player (envidoPoints s) > opponent (envidoPoints s) then 0 else 2)) \<and>
   trucoValue (callEnvido s) = trucoValue s \<and> truco (callEnvido s) = truco s \<and>
   rounds (callEnvido s) = rounds s \<and> roundWins (callEnvido s) = roundWins s \<and>
   currentRound (callEnvido s) = currentRound s \<and> gameState (callEnvido s) = gameState s \<and>
   envido (playCard s c) = envido s \<and> envido (callTruco s) = envido s \<and>
   (\<forall>t. playOpponentCard s = Done t \<longrightarrow> envido t = envido s) \<and>
   (\<forall>t. evaluateRound s oc = Done t \<longrightarrow> envido t = envido s) \<and>
   envido (startNewHand s d) = False \<and>
   envidoSuccesses acts s \<le> 1 \<and>
   (\<not> envido s \<longrightarrow> callEnvido s \<noteq> s)"
proof -
  have a: "envido s \<longrightarrow> callEnvido s = s \<and> clickEnvido s = s"
    by (simp add: callEnvido_def clickEnvido_def)
  have b: "envido (callEnvido s)"
    by (simp add: callEnvido_def Let_def)
  have c: "currentRound s > 1 \<longrightarrow> clickEnvido s = s"
    by (simp add: clickEnvido_def envidoButtonEnabled_def)
  have d: "clickEnvido s \<noteq> s \<longrightarrow>
      clickEnvido s = callEnvido s \<and> \<not> envido s \<and> currentRound s \<le> 1 \<and>
      gameState s = Playing \<and> player (roundCards s) = None \<and>
      (roundCounted s \<longrightarrow> rounds s = [])"
    by (auto simp: clickEnvido_def envidoButtonEnabled_def roundCounted_def)
  have e: "\<not> envido s \<longrightarrow>
      playerScore (callEnvido s) = playerScore s +
        (if player (envidoPoints s) > opponent (envidoPoints s) then 2 else 0) \<and>
      opponentScore (callEnvido s) = opponentScore s +
        (if player (envidoPoints s) > opponent (envidoPoints s) then 0 else 2)"
    by (simp add: callEnvido_def Let_def)
  have f: "trucoValue (callEnvido s) = trucoValue s" "truco (callEnvido s) = truco s"
    "rounds (callEnvido s) = rounds s" "roundWins (callEnvido s) = roundWins s"
    "currentRound (callEnvido s) = currentRound s" "gameState (callEnvido s) = gameState s"
    by (simp_all add: callEnvido_def Let_def)
  have g: "envido (playCard s c) = envido s" "envido (callTruco s) = envido s"
    by (simp_all add: playCard_def callTruco_def Let_def)
  have h: "\<forall>t. playOpponentCard s = Done t \<longrightarrow> envido t = envido s"
    "\<forall>t. evaluateRound s oc = Done t \<longrightarrow> envido t = envido s"
    using playOpponentCard_envido evaluateRound_envido by blast+
  have i: "envido (startNewHand s d) = False"
    by (simp add: startNewHand_def calculateEnvidoPoints_def Let_def)
  have j: "\<not> envido s \<longrightarrow> callEnvido s \<noteq> s"
  proof
    assume n: "\<not> envido s"
    show "callEnvido s \<noteq> s"
    proof
      assume "callEnvido s = s"
      with b have "envido s" by simp
      with n show False ..
    qed
  qed
  show ?thesis
    by (intro conjI a b c d e f g h i envidoSuccesses_once j)
qed

theorem envido_once_witness:
  "\<not> envido (initialGame\<lparr>gameState := Playing, envidoPoints := \<lparr>player = 25, opponent = 25\<rparr>\<rparr>) \<and>
   roundCounted (initialGame\<lparr>gameState := Playing,
                              envidoPoints := \<lparr>player = 25, opponent = 25\<rparr>\<rparr>) \<and>
   clickEnvido (initialGame\<lparr>gameState := Playing, envidoPoints := \<lparr>player = 25, opponent = 25\<rparr>\<rparr>)
     \<noteq> initialGame\<lparr>gameState := Playing, envidoPoints := \<lparr>player = 25, opponent = 25\<rparr>\<rparr> \<and>
   playerScore (clickEnvido
     (initialGame\<lparr>gameState := Playing, envidoPoints := \<lparr>player = 25, opponent = 25\<rparr>\<rparr>)) = 0 \<and>
   opponentScore (clickEnvido
     (initialGame\<lparr>gameState := Playing, envidoPoints := \<lparr>player = 25, opponent = 25\<rparr>\<rparr>)) = 2 \<and>
   envido (clickEnvido
     (initialGame\<lparr>gameState := Playing, envidoPoints := \<lparr>player = 25, opponent = 25\<rparr>\<rparr>)) \<and>
   clickEnvido (clickEnvido
     (initialGame\<lparr>gameState := Playing, envidoPoints := \<lparr>player = 25, opponent = 25\<rparr>\<rparr>)) =
     clickEnvido
     (initialGame\<lparr>gameState := Playing, envidoPoints := \<lparr>player = 25, opponent = 25\<rparr>\<rparr>) \<and>
   currentRound (initialGame\<lparr>gameState := Playing, currentRound := 2\<rparr>) > 1 \<and>
   clickEnvido (initialGame\<lparr>gameState := Playing, currentRound := 2\<rparr>) =
     initialGame\<lparr>gameState := Playing, currentRound := 2\<rparr> \<and>
   callEnvido (initialGame\<lparr>gameState := Playing, currentRound := 2\<rparr>) \<noteq>
     initialGame\<lparr>gameState := Playing, currentRound := 2\<rparr>"
proof -
  let ?s = "initialGame\<lparr>gameState := Playing, envidoPoints := \<lparr>player = 25, opponent = 25\<rparr>\<rparr>"
  let ?r = "initialGame\<lparr>gameState := Playing, currentRound := 2\<rparr>"
  have n: "\<not> envido ?s" and rc: "roundCounted ?s"
    by (simp_all add: initialGame_def roundCounted_def)
  have en: "envidoButtonEnabled ?s"
    by (simp add: envidoButtonEnabled_def initialGame_def)
  then have ce: "clickEnvido ?s = callEnvido ?s"
    by (simp add: clickEnvido_def)
  have sc: "playerScore ?s = 0" "opponentScore ?s = 0" "envidoPoints ?s = \<lparr>player = 25, opponent = 25\<rparr>"
    by (simp_all add: initialGame_def)
  have r2: "currentRound ?r > 1"
    by simp
  note t = envido_once[of ?s] and t' = envido_once[of "clickEnvido ?s"] and t'' = envido_once[of ?r]
  have 1: "envido (clickEnvido ?s)"
    using t[THEN conjunct2, THEN conjunct1] unfolding ce .
  have 2: "clickEnvido ?s \<noteq> ?s"
  proof
    assume "clickEnvido ?s = ?s"
    with 1 have "envido ?s" by simp
    with n show False ..
  qed
  note e = t[THEN conjunct2, THEN conjunct2, THEN conjunct2, THEN conjunct2, THEN conjunct1,
      rule_format, OF n]
  have 3: "playerScore (clickEnvido ?s) = 0" "opponentScore (clickEnvido ?s) = 2"
    using e sc unfolding ce by simp_all
  have 4: "clickEnvido (clickEnvido ?s) = clickEnvido ?s"
    using t'[THEN conjunct1, rule_format, OF 1] ..
  have 5: "clickEnvido ?r = ?r"
    using t''[THEN conjunct2, THEN conjunct2, THEN conjunct1, rule_format, OF r2] .
  have nr: "\<not> envido ?r"
    by (simp add: initialGame_def)
  note imp = t''[THEN conjunct2, THEN conjunct2, THEN conjunct2, THEN conjunct2,
      THEN conjunct2, THEN conjunct2, THEN conjunct2, THEN conjunct2, THEN conjunct2,
      THEN conjunct2, THEN conjunct2, THEN conjunct2, THEN conjunct2, THEN conjunct2,
      THEN conjunct2, THEN conjunct2, THEN conjunct2]
  have 6: "callEnvido ?r \<noteq> ?r"
    using imp nr by (rule mp)
  show ?thesis
    by (intro conjI n rc 2 3 1 4 r2 5 6)
qed

text \<open>
  Claim C8 as the specification states it fails where it has a call of \<^verbatim>\<open>callEnvido\<close>
  during the second or third trick rejected: in the third trick of a hand, with Envido
  not yet called and the player's card already in the slot, the call sets the flag and
  gives the player, whose Envido points are the higher, 2 points.
\<close>

theorem callEnvido_trick3_counterexample:
  "currentRound
     (initialGame\<lparr>gameState := Playing, currentRound := 3,
        roundCards := \<lparr>player = Some \<lparr>suit = ''espadas'', value' = 1\<rparr>, opponent = None\<rparr>,
        envidoPoints := \<lparr>player = 30, opponent = 25\<rparr>\<rparr>) = 3 \<and>
   callEnvido
     (initialGame\<lparr>gameState := Playing, currentRound := 3,
        roundCards := \<lparr>player = Some \<lparr>suit = ''espadas'', value' = 1\<rparr>, opponent = None\<rparr>,
        envidoPoints := \<lparr>player = 30, opponent = 25\<rparr>\<rparr>)
     \<noteq> initialGame\<lparr>gameState := Playing, currentRound := 3,
        roundCards := \<lparr>player = Some \<lparr>suit = ''espadas'', value' = 1\<rparr>, opponent = None\<rparr>,
        envidoPoints := \<lparr>player = 30, opponent = 25\<rparr>\<rparr> \<and>
   envido (callEnvido
     (initialGame\<lparr>gameState := Playing, currentRound := 3,
        roundCards := \<lparr>player = Some \<lparr>suit = ''espadas'', value' = 1\<rparr>, opponent = None\<rparr>,
        envidoPoints := \<lparr>player = 30, opponent = 25\<rparr>\<rparr>)) \<and>
   playerScore (callEnvido
     (initialGame\<lparr>gameState := Playing, currentRound := 3,
        roundCards := \<lparr>player = Some \<lparr>suit = ''espadas'', value' = 1\<rparr>, opponent = None\<rparr>,
        envidoPoints := \<lparr>player = 30, opponent = 25\<rparr>\<rparr>)) = 2 \<and>
   opponentScore (callEnvido
     (initialGame\<lparr>gameState := Playing, currentRound := 3,
        roundCards := \<lparr>player = Some \<lparr>suit = ''espadas'', value' = 1\<rparr>, opponent = None\<rparr>,
        envidoPoints := \<lparr>player = 30, opponent = 25\<rparr>\<rparr>)) = 0"
  by (simp add: callEnvido_def initialGame_def Let_def)

end
